theory Spec2Isabelle
  imports Main
begin

section \<open>Python values and builtins used by the client\<close>

text \<open>
  The two scripts \<^verbatim>\<open>auer_cfg_mgr.py\<close> and \<^verbatim>\<open>auer_cfg_switch.py\<close> work on the
  documents that \<^verbatim>\<open>response.json()\<close> returns. Such a document is a Python object
  built from \<^verbatim>\<open>None\<close>, \<^verbatim>\<open>bool\<close>, \<^verbatim>\<open>int\<close>, \<^verbatim>\<open>str\<close>, \<^verbatim>\<open>list\<close> and
  \<^verbatim>\<open>dict\<close> (with \<^verbatim>\<open>str\<close> keys). A \<^verbatim>\<open>dict\<close> is an association list read with
  \<^const>\<open>map_of\<close>. JSON numbers with a fraction (Python \<^verbatim>\<open>float\<close>) and code points
  above 255 are outside the model.
\<close>

datatype json =
    JNull
  | JBool bool
  | JInt int
  | JStr string
  | JList "json list"
  | JObj "(string \<times> json) list"

text \<open>
  Every exception the modelled code can raise. \<open>KeyError\<close> carries the key,
  \<open>SystemExit\<close> the exit status.
\<close>

datatype error =
    KeyError json
  | IndexError
  | TypeError
  | AttributeError
  | RequestException
  | JSONDecodeError
  | TunnelError
  | SystemExit int

text \<open>\<^verbatim>\<open>obj[key]\<close> with a \<^verbatim>\<open>str\<close> key.\<close>

fun getitem :: "json \<Rightarrow> string \<Rightarrow> error + json" where
  "getitem (JObj kvs) key =
     (case map_of kvs key of None \<Rightarrow> Inl (KeyError (JStr key)) | Some v \<Rightarrow> Inr v)"
| "getitem _ key = Inl TypeError"

text \<open>
  \<^verbatim>\<open>obj[i]\<close> with a literal index \<^verbatim>\<open>0\<close> or \<^verbatim>\<open>1\<close>. A \<^verbatim>\<open>str\<close> yields the
  one-character string at that position; a \<^verbatim>\<open>dict\<close> from JSON has only \<^verbatim>\<open>str\<close>
  keys, so an \<^verbatim>\<open>int\<close> key is never found.
\<close>

fun getindex :: "json \<Rightarrow> nat \<Rightarrow> error + json" where
  "getindex (JList xs) i = (if i < length xs then Inr (xs ! i) else Inl IndexError)"
| "getindex (JStr cs) i = (if i < length cs then Inr (JStr [cs ! i]) else Inl IndexError)"
| "getindex (JObj kvs) i = Inl (KeyError (JInt (int i)))"
| "getindex _ i = Inl TypeError"

text \<open>\<^verbatim>\<open>obj.get(key, default)\<close>: only a \<^verbatim>\<open>dict\<close> has the method.\<close>

fun dict_get :: "json \<Rightarrow> string \<Rightarrow> json \<Rightarrow> error + json" where
  "dict_get (JObj kvs) key dflt =
     Inr (case map_of kvs key of None \<Rightarrow> dflt | Some v \<Rightarrow> v)"
| "dict_get _ key dflt = Inl AttributeError"

text \<open>The truth value of an object in an \<^verbatim>\<open>if\<close>.\<close>

fun truthy :: "json \<Rightarrow> bool" where
  "truthy JNull = False"
| "truthy (JBool b) = b"
| "truthy (JInt i) = (i \<noteq> 0)"
| "truthy (JStr cs) = (cs \<noteq> [])"
| "truthy (JList xs) = (xs \<noteq> [])"
| "truthy (JObj kvs) = (kvs \<noteq> [])"

text \<open>\<^verbatim>\<open>for x in obj\<close>: the items the loop visits, or \<open>TypeError\<close>.\<close>

fun iterate :: "json \<Rightarrow> error + json list" where
  "iterate (JList xs) = Inr xs"
| "iterate (JStr cs) = Inr (map (\<lambda>c. JStr [c]) cs)"
| "iterate (JObj kvs) = Inr (map (\<lambda>kv. JStr (fst kv)) kvs)"
| "iterate _ = Inl TypeError"

subsection \<open>\<^verbatim>\<open>str()\<close>\<close>

definition digit_char :: "nat \<Rightarrow> char" where
  "digit_char d = ''0123456789'' ! d"

fun dec_nat :: "nat \<Rightarrow> string" where
  "dec_nat n = (if n < 10 then [digit_char n] else dec_nat (n div 10) @ [digit_char (n mod 10)])"

declare dec_nat.simps [simp del]

definition str_int :: "int \<Rightarrow> string" where
  "str_int i = (if i < 0 then CHR ''-'' # dec_nat (nat (- i)) else dec_nat (nat i))"

definition hex_char :: "nat \<Rightarrow> char" where
  "hex_char d = ''0123456789abcdef'' ! d"

text \<open>
  \<^verbatim>\<open>repr\<close> of a \<^verbatim>\<open>str\<close>: single quotes unless the text holds a single and no
  double quote; the quote and the backslash are escaped, as are tab, newline,
  carriage return and the code points that are not printable.
\<close>

definition printable :: "char \<Rightarrow> bool" where
  "printable c = (let n = (of_char c :: nat) in 32 \<le> n \<and> n \<noteq> 127 \<and> \<not> (128 \<le> n \<and> n \<le> 160) \<and> n \<noteq> 173)"

definition repr_char :: "char \<Rightarrow> char \<Rightarrow> string" where
  "repr_char quote c =
     (if c = quote \<or> c = CHR 0x5C then [CHR 0x5C, c]
      else if c = CHR 0x09 then [CHR 0x5C, CHR ''t'']
      else if c = CHR 0x0A then [CHR 0x5C, CHR ''n'']
      else if c = CHR 0x0D then [CHR 0x5C, CHR ''r'']
      else if printable c then [c]
      else [CHR 0x5C, CHR ''x'', hex_char (of_char c div 16), hex_char (of_char c mod 16)])"

definition repr_str :: "string \<Rightarrow> string" where
  "repr_str cs =
     (let quote = (if CHR 0x27 \<in> set cs \<and> CHR 0x22 \<notin> set cs then CHR 0x22 else CHR 0x27)
      in quote # concat (map (repr_char quote) cs) @ [quote])"

fun join :: "string \<Rightarrow> string list \<Rightarrow> string" where
  "join sep [] = []"
| "join sep [x] = x"
| "join sep (x # y # ys) = x @ sep @ join sep (y # ys)"

primrec repr :: "json \<Rightarrow> string" where
  "repr JNull = ''None''"
| "repr (JBool b) = (if b then ''True'' else ''False'')"
| "repr (JInt i) = str_int i"
| "repr (JStr cs) = repr_str cs"
| "repr (JList xs) = ''['' @ join '', '' (map repr xs) @ '']''"
| "repr (JObj kvs) =
     ''{'' @ join '', '' (map (\<lambda>kv. repr_str (fst kv) @ '': '' @ snd kv) (map (map_prod id repr) kvs)) @ ''}''"

text \<open>\<^verbatim>\<open>str(obj)\<close>, also what an f-string field \<^verbatim>\<open>{obj}\<close> formats to.\<close>

definition str :: "json \<Rightarrow> string" where
  "str v = (case v of JStr cs \<Rightarrow> cs | _ \<Rightarrow> repr v)"

subsection \<open>\<^verbatim>\<open>str.strip()\<close>\<close>

text \<open>The code points up to 255 that \<^verbatim>\<open>str.isspace\<close> accepts.\<close>

definition isspace :: "char \<Rightarrow> bool" where
  "isspace c = (let n = (of_char c :: nat) in (9 \<le> n \<and> n \<le> 13) \<or> (28 \<le> n \<and> n \<le> 32) \<or> n = 133 \<or> n = 160)"

definition strip :: "string \<Rightarrow> string" where
  "strip cs = rev (dropWhile isspace (rev (dropWhile isspace cs)))"

text \<open>\<^verbatim>\<open>obj.strip()\<close>: only a \<^verbatim>\<open>str\<close> has the method.\<close>

fun strip_method :: "json \<Rightarrow> error + json" where
  "strip_method (JStr cs) = Inr (JStr (strip cs))"
| "strip_method _ = Inl AttributeError"


section \<open>The client object and its environment\<close>

text \<open>
  Both files define one class \<^verbatim>\<open>AuerswaldCfgMgr\<close>. Its methods
  \<^verbatim>\<open>_fetch\<close>, \<^verbatim>\<open>_send\<close>, \<^verbatim>\<open>enable_autoswitch\<close>, \<^verbatim>\<open>disable_autoswitch\<close>,
  \<^verbatim>\<open>switch_config\<close> and \<^verbatim>\<open>main\<close> are the same text in both and are modelled
  once; \<^verbatim>\<open>_pbx_product\<close>, \<^verbatim>\<open>_pbx_name\<close> and \<^verbatim>\<open>show_configurations\<close> differ
  and are modelled per file (prefix \<open>mgr_\<close> for \<^verbatim>\<open>auer_cfg_mgr.py\<close>, \<open>switch_\<close> for
  \<^verbatim>\<open>auer_cfg_switch.py\<close>). A leading underscore of a Python name is dropped.
\<close>

datatype request =
    GET string
  | POST string "(string \<times> json) list option" "(string \<times> json) list option"

text \<open>
  \<open>GET url\<close> is \<^verbatim>\<open>session.get(url)\<close>; \<open>POST url params data\<close> is
  \<^verbatim>\<open>session.post(url, params=params, data=data, files=None, headers=None)\<close>, a
  \<^verbatim>\<open>dict\<close> argument being \<open>Some\<close> of its items and \<^verbatim>\<open>None\<close> being \<open>None\<close>.
  A response is its body as \<^verbatim>\<open>.json()\<close> parses it, \<open>None\<close> when the body is
  not JSON.
\<close>

type_synonym response = "json option"

datatype forwarder = Created | Started nat | Stopped

text \<open>
  The fields up to \<open>pbx_logstatus\<close> are attributes of \<^verbatim>\<open>self\<close>; an attribute that
  \<^verbatim>\<open>hasattr\<close> does not find is \<open>None\<close>. The rest is the world the process runs in:
  \<open>appliance\<close> answers a request given the requests it has received so far (or the
  request fails with an exception), \<open>ssh_start\<close> is the local port that
  \<^verbatim>\<open>SSHTunnelForwarder.start()\<close> binds (\<open>None\<close> when it fails), \<open>sent\<close> is every
  request issued through the session, in order, \<open>stdout\<close> the lines written by
  the builtin \<^verbatim>\<open>print\<close> and \<open>stderr\<close> the messages given to \<^verbatim>\<open>parser.error\<close>.
  What the \<^verbatim>\<open>rich\<close> library renders is not modelled, nor is \<^verbatim>\<open>time.sleep\<close>.
\<close>

record state =
  ssh_tunnel :: bool
  auer_address :: string
  tunnel :: "forwarder option"
  pbx_info :: "json option"
  pbx_tree :: "json option"
  pbx_about :: "json option"
  pbx_logstatus :: "json option"
  appliance :: "request list \<Rightarrow> request \<Rightarrow> error + response"
  ssh_start :: "nat option"
  sent :: "request list"
  stdout :: "string list"
  stderr :: "string list"

text \<open>A method: it reads and updates the state and returns a value or raises.\<close>

type_synonym 'a py = "state \<Rightarrow> (error + 'a) \<times> state"

definition return_py :: "'a \<Rightarrow> 'a py" where
  "return_py x s = (Inr x, s)"

definition raise :: "error \<Rightarrow> 'a py" where
  "raise e s = (Inl e, s)"

definition lift :: "error + 'a \<Rightarrow> 'a py" where
  "lift r s = (r, s)"

definition bind_py :: "'a py \<Rightarrow> ('a \<Rightarrow> 'b py) \<Rightarrow> 'b py" where
  "bind_py m f s = (case m s of (Inl e, s') \<Rightarrow> (Inl e, s') | (Inr x, s') \<Rightarrow> f x s')"

definition and_then :: "error + 'a \<Rightarrow> ('a \<Rightarrow> error + 'b) \<Rightarrow> error + 'b" where
  "and_then r f = (case r of Inl e \<Rightarrow> Inl e | Inr x \<Rightarrow> f x)"

text \<open>Reading an attribute of \<^verbatim>\<open>self\<close> that may not have been set.\<close>

definition attr :: "(state \<Rightarrow> 'a option) \<Rightarrow> 'a py" where
  "attr field s = (case field s of None \<Rightarrow> (Inl AttributeError, s) | Some v \<Rightarrow> (Inr v, s))"

definition print_line :: "string \<Rightarrow> unit py" where
  "print_line msg s = (Inr (), s\<lparr>stdout := stdout s @ [msg]\<rparr>)"

subsection \<open>Transport\<close>

definition session_get :: "string \<Rightarrow> response py" where
  "session_get url s = (appliance s (sent s) (GET url), s\<lparr>sent := sent s @ [GET url]\<rparr>)"

definition session_post ::
  "string \<Rightarrow> (string \<times> json) list option \<Rightarrow> (string \<times> json) list option \<Rightarrow> response py" where
  "session_post url params data s =
     (appliance s (sent s) (POST url params data), s\<lparr>sent := sent s @ [POST url params data]\<rparr>)"

definition connect_ssh_tunnel :: "nat py" where
  "connect_ssh_tunnel s =
     (case ssh_start s of
        None \<Rightarrow> (Inl TunnelError, s\<lparr>tunnel := Some Created\<rparr>)
      | Some port \<Rightarrow> (Inr port, s\<lparr>tunnel := Some (Started port)\<rparr>))"

definition disconnect_ssh_tunnel :: "unit py" where
  "disconnect_ssh_tunnel s =
     (case tunnel s of
        None \<Rightarrow> (Inl AttributeError, s)
      | Some t \<Rightarrow> (Inr (), s\<lparr>tunnel := Some Stopped\<rparr>))"

text \<open>\<^verbatim>\<open>self.tunnel.local_bind_port\<close>: the forwarder must exist and be started.\<close>

definition local_bind_port :: "nat py" where
  "local_bind_port s =
     (case tunnel s of
        None \<Rightarrow> (Inl AttributeError, s)
      | Some (Started port) \<Rightarrow> (Inr port, s)
      | Some t \<Rightarrow> (Inl TunnelError, s))"

definition fetch :: "string \<Rightarrow> response py" where
  "fetch path s =
     (if ssh_tunnel s
      then bind_py local_bind_port
             (\<lambda>port. session_get (''https://127.0.0.1:'' @ dec_nat port @ path)) s
      else session_get (''https://'' @ auer_address s @ path) s)"

definition send ::
  "string \<Rightarrow> (string \<times> json) list option \<Rightarrow> (string \<times> json) list option \<Rightarrow> response py" where
  "send path params data s =
     (if ssh_tunnel s
      then bind_py local_bind_port
             (\<lambda>port. session_post (''https://127.0.0.1:'' @ dec_nat port @ path) params data) s
      else session_post (''https://'' @ auer_address s @ path) params data s)"

definition response_json :: "response \<Rightarrow> error + json" where
  "response_json r = (case r of None \<Rightarrow> Inl JSONDecodeError | Some j \<Rightarrow> Inr j)"

subsection \<open>Query adapter\<close>

definition fetch_pbx_menu_tree :: "json py" where
  "fetch_pbx_menu_tree = bind_py (fetch ''/tree'') (\<lambda>r. lift (response_json r))"

definition fetch_pbx_info :: "json py" where
  "fetch_pbx_info = bind_py (fetch ''/tree'') (\<lambda>r. lift (response_json r))"

definition fetch_pbx_about :: "json py" where
  "fetch_pbx_about = bind_py (fetch ''/about_state'') (\<lambda>r. lift (response_json r))"

definition fetch_pbx_logstatus :: "json py" where
  "fetch_pbx_logstatus = bind_py (fetch ''/logstatus_state'') (\<lambda>r. lift (response_json r))"

definition fetch_autoswitch_state :: "json py" where
  "fetch_autoswitch_state = bind_py (fetch ''/config_autoswitch_state'') (\<lambda>r. lift (response_json r))"

definition fetch_cfg_state :: "json py" where
  "fetch_cfg_state = bind_py (fetch ''/configs_state'') (\<lambda>r. lift (response_json r))"

definition pbx_user :: "json py" where
  "pbx_user =
     bind_py (\<lambda>s. if pbx_logstatus s = None
                   then bind_py fetch_pbx_logstatus
                          (\<lambda>doc s'. (Inr (), s'\<lparr>pbx_logstatus := Some doc\<rparr>)) s
                   else (Inr (), s))
       (\<lambda>_. bind_py (attr pbx_logstatus) (\<lambda>doc. lift (getitem doc ''logstatus'')))"

text \<open>
  In \<^verbatim>\<open>auer_cfg_mgr.py\<close> the product and name accessors test for the attribute
  \<^verbatim>\<open>pbx_info\<close> and store the document in \<^verbatim>\<open>pbx_tree\<close>.
\<close>

definition mgr_pbx_product :: "json py" where
  "mgr_pbx_product =
     bind_py (\<lambda>s. if pbx_info s = None
                   then bind_py fetch_pbx_menu_tree
                          (\<lambda>doc s'. (Inr (), s'\<lparr>pbx_tree := Some doc\<rparr>)) s
                   else (Inr (), s))
       (\<lambda>_. bind_py (attr pbx_tree)
          (\<lambda>doc. lift (and_then (getindex doc 0) (\<lambda>top. getitem top ''pbx''))))"

definition mgr_pbx_name :: "json py" where
  "mgr_pbx_name =
     bind_py (\<lambda>s. if pbx_info s = None
                   then bind_py fetch_pbx_menu_tree
                          (\<lambda>doc s'. (Inr (), s'\<lparr>pbx_tree := Some doc\<rparr>)) s
                   else (Inr (), s))
       (\<lambda>_. bind_py (attr pbx_tree)
          (\<lambda>doc. lift (and_then (getindex doc 0) (\<lambda>top. getitem top ''pbxEdit''))))"

text \<open>In \<^verbatim>\<open>auer_cfg_switch.py\<close> they test and store \<^verbatim>\<open>pbx_info\<close>.\<close>

definition switch_pbx_product :: "json py" where
  "switch_pbx_product =
     bind_py (\<lambda>s. if pbx_info s = None
                   then bind_py fetch_pbx_info
                          (\<lambda>doc s'. (Inr (), s'\<lparr>pbx_info := Some doc\<rparr>)) s
                   else (Inr (), s))
       (\<lambda>_. bind_py (attr pbx_info)
          (\<lambda>doc. lift (and_then (getindex doc 0) (\<lambda>top. getitem top ''pbx''))))"

definition switch_pbx_name :: "json py" where
  "switch_pbx_name =
     bind_py (\<lambda>s. if pbx_info s = None
                   then bind_py fetch_pbx_info
                          (\<lambda>doc s'. (Inr (), s'\<lparr>pbx_info := Some doc\<rparr>)) s
                   else (Inr (), s))
       (\<lambda>_. bind_py (attr pbx_info)
          (\<lambda>doc. lift (and_then (getindex doc 0) (\<lambda>top. getitem top ''pbxEdit''))))"

definition pbx_firmware :: "json py" where
  "pbx_firmware =
     bind_py (\<lambda>s. if pbx_about s = None
                   then bind_py fetch_pbx_about
                          (\<lambda>doc s'. (Inr (), s'\<lparr>pbx_about := Some doc\<rparr>)) s
                   else (Inr (), s))
       (\<lambda>_. bind_py (attr pbx_about)
          (\<lambda>doc. lift (and_then (getitem doc ''version'') strip_method)))"

definition pbx_date :: "json py" where
  "pbx_date =
     bind_py (\<lambda>s. if pbx_about s = None
                   then bind_py fetch_pbx_about
                          (\<lambda>doc s'. (Inr (), s'\<lparr>pbx_about := Some doc\<rparr>)) s
                   else (Inr (), s))
       (\<lambda>_. bind_py (attr pbx_about) (\<lambda>doc. lift (getitem doc ''date'')))"

definition pbx_serial :: "json py" where
  "pbx_serial =
     bind_py (\<lambda>s. if pbx_about s = None
                   then bind_py fetch_pbx_about
                          (\<lambda>doc s'. (Inr (), s'\<lparr>pbx_about := Some doc\<rparr>)) s
                   else (Inr (), s))
       (\<lambda>_. bind_py (attr pbx_about) (\<lambda>doc. lift (getitem doc ''serial'')))"


subsection \<open>Command actions\<close>

definition enable_autoswitch :: "json py" where
  "enable_autoswitch =
     bind_py fetch_autoswitch_state (\<lambda>current.
     bind_py (lift (getitem current ''switchCfgCb'')) (\<lambda>cb.
       if cb = JStr ''1'' then return_py (JBool True)
       else
         bind_py (lift (getitem current ''switchSysRelaisName'')) (\<lambda>name.
         bind_py (send ''/config_autoswitch_save'' None
                    (Some [(''switchCfgCb'', JStr ''switchCfgCb''),
                           (''switchSysRelais'', JStr ''switchSysRelais''),
                           (''switchSysRelaisName'', name)])) (\<lambda>_.
         return_py JNull))))"

definition disable_autoswitch :: "json py" where
  "disable_autoswitch =
     bind_py fetch_autoswitch_state (\<lambda>current.
     bind_py (lift (getitem current ''switchCfgCb'')) (\<lambda>cb.
       if cb = JStr ''0'' then return_py (JBool True)
       else
         bind_py (lift (getitem current ''switchSysRelaisName'')) (\<lambda>name.
         bind_py (send ''/config_autoswitch_save'' None
                    (Some [(''switchSysRelais'', JStr ''switchSysRelais''),
                           (''switchSysRelaisName'', name)])) (\<lambda>_.
         return_py JNull))))"

text \<open>
  \<^verbatim>\<open>config["data"][1]\<close>, \<^verbatim>\<open>config.get("userdata", {}).get("active")\<close> and the
  message of \<^verbatim>\<open>switch_config\<close>.
\<close>

definition ident_number :: "json \<Rightarrow> error + json" where
  "ident_number config = and_then (getitem config ''data'') (\<lambda>d. getindex d 1)"

definition active_flag :: "json \<Rightarrow> error + json" where
  "active_flag config =
     and_then (dict_get config ''userdata'' (JObj [])) (\<lambda>u. dict_get u ''active'' JNull)"

definition not_found_message :: "json \<Rightarrow> string" where
  "not_found_message cfg_number = ''Identifikationsnummer '' @ str cfg_number @ '' not found''"

text \<open>
  The \<^verbatim>\<open>for\<close> loop of \<^verbatim>\<open>switch_config\<close> over the remaining entries; the empty
  list is the code after the loop (\<^verbatim>\<open>print\<close>, \<^verbatim>\<open>exit(1)\<close>).
\<close>

fun switch_config_loop :: "json \<Rightarrow> json list \<Rightarrow> json py" where
  "switch_config_loop cfg_number [] =
     bind_py (print_line (not_found_message cfg_number)) (\<lambda>_. raise (SystemExit 1))"
| "switch_config_loop cfg_number (config # rest) =
     bind_py (lift (ident_number config)) (\<lambda>ident.
       if ident = JStr (str cfg_number) then
         bind_py (lift (active_flag config)) (\<lambda>active.
           if truthy active then return_py (JBool True)
           else
             bind_py (lift (getitem config ''id'')) (\<lambda>cid.
             bind_py (send ''/configs_set'' (Some [(''configId'', JStr (str cid))]) None) (\<lambda>_.
             return_py (JBool True))))
       else switch_config_loop cfg_number rest)"

definition switch_config :: "json \<Rightarrow> json py" where
  "switch_config cfg_number =
     bind_py fetch_cfg_state (\<lambda>doc.
     bind_py (lift (getitem doc ''rows'')) (\<lambda>configs.
     bind_py (lift (iterate configs)) (\<lambda>rows.
     switch_config_loop cfg_number rows)))"

subsection \<open>Presentation, as far as it reads from the appliance\<close>

text \<open>
  \<^verbatim>\<open>show_configurations\<close> is modelled by the documents it fetches and the
  fields it reads from them, in the order of the source. The exceptions that
  \<^verbatim>\<open>rich\<close> raises while rendering (a table cell that is not a string, markup
  in a fetched text) are not modelled, so the model may go on reading and
  fetching where the code has already stopped. Neither sends a POST here.
\<close>

fun show_rows :: "json list \<Rightarrow> unit py" where
  "show_rows [] = return_py ()"
| "show_rows (config # rest) =
     bind_py (lift (active_flag config)) (\<lambda>active.
     bind_py (lift (and_then (getitem config ''data'') (\<lambda>d. getindex d 0))) (\<lambda>_.
     bind_py (lift (ident_number config)) (\<lambda>_.
     show_rows rest)))"

definition show_tables :: "unit py" where
  "show_tables =
     bind_py fetch_autoswitch_state (\<lambda>autoswitch_state.
     bind_py (lift (getitem autoswitch_state ''switchCfgCb'')) (\<lambda>_.
     bind_py (lift (getitem autoswitch_state ''switchSysRelaisName'')) (\<lambda>_.
     bind_py (lift (getitem autoswitch_state ''switchSysRelais'')) (\<lambda>_.
     bind_py (print_line []) (\<lambda>_.
     bind_py fetch_cfg_state (\<lambda>configs.
     bind_py (lift (getitem configs ''rows'')) (\<lambda>rows.
     bind_py (lift (iterate rows)) show_rows)))))))"

definition mgr_show_configurations :: "unit py" where
  "mgr_show_configurations =
     bind_py mgr_pbx_product (\<lambda>_.
     bind_py pbx_firmware (\<lambda>_.
     bind_py pbx_date (\<lambda>_.
     bind_py pbx_serial (\<lambda>_.
     bind_py pbx_user (\<lambda>_.
     bind_py mgr_pbx_name (\<lambda>_.
     show_tables))))))"

definition switch_show_configurations :: "unit py" where
  "switch_show_configurations =
     bind_py switch_pbx_product (\<lambda>_.
     bind_py switch_pbx_name (\<lambda>_.
     show_tables))"

subsection \<open>Command line\<close>

text \<open>
  \<open>args\<close> is what \<^verbatim>\<open>parser.parse_args()\<close> returns: \<^verbatim>\<open>choices\<close> admits four
  commands (so the last \<^verbatim>\<open>else\<close> of \<^verbatim>\<open>main\<close> is never taken), \<^verbatim>\<open>number\<close> is an
  \<^verbatim>\<open>int\<close> (\<open>Some n\<close>, the object \<open>JInt n\<close>) or \<^verbatim>\<open>None\<close> (the object \<open>JNull\<close>). \<^verbatim>\<open>ArgumentParser.error(message)\<close> writes the usage and
  the message to standard error and exits with status 2.
\<close>

datatype command = Show | Enable | Disable | Select

record args =
  command :: command
  number :: "int option"
  debug :: bool

datatype script = Auer_cfg_mgr | Auer_cfg_switch

definition parser_error :: "string \<Rightarrow> 'a py" where
  "parser_error message s = (Inl (SystemExit 2), s\<lparr>stderr := stderr s @ [message]\<rparr>)"

definition enable_debug :: "unit py" where
  "enable_debug = return_py ()"

definition show_configurations :: "script \<Rightarrow> unit py" where
  "show_configurations file =
     (case file of Auer_cfg_mgr \<Rightarrow> mgr_show_configurations
                 | Auer_cfg_switch \<Rightarrow> switch_show_configurations)"

definition select_requires_number :: string where
  "select_requires_number = ''The '' @ [CHR 0x27] @ ''select'' @ [CHR 0x27] @ '' command requires a number.''"

definition main :: "script \<Rightarrow> args \<Rightarrow> unit py" where
  "main file a =
     (if command a = Select \<and> number a = None then parser_error select_requires_number
      else
        bind_py (if debug a then enable_debug else return_py ()) (\<lambda>_.
        bind_py (\<lambda>s. if ssh_tunnel s then bind_py connect_ssh_tunnel (\<lambda>_. return_py ()) s
                      else return_py () s) (\<lambda>_.
        bind_py (case command a of
                   Show \<Rightarrow> show_configurations file
                 | Enable \<Rightarrow> bind_py enable_autoswitch (\<lambda>_. show_configurations file)
                 | Disable \<Rightarrow> bind_py disable_autoswitch (\<lambda>_. show_configurations file)
                 | Select \<Rightarrow>
                     bind_py (switch_config (case number a of None \<Rightarrow> JNull | Some n \<Rightarrow> JInt n))
                       (\<lambda>_. show_configurations file)) (\<lambda>_.
        (\<lambda>s. if ssh_tunnel s then disconnect_ssh_tunnel s else return_py () s)))))"


section \<open>Observing a run\<close>

text \<open>
  A write is a POST. \<open>issued m s\<close> is what running \<open>m\<close> from \<open>s\<close> adds to the
  log of requests, \<open>base_url s\<close> the scheme and authority that \<^verbatim>\<open>_fetch\<close> and
  \<^verbatim>\<open>_send\<close> put before the path when the tunnel, if one is configured, is
  started (\<open>tunnel_ready\<close>).
\<close>

fun is_post :: "request \<Rightarrow> bool" where
  "is_post (POST url params data) = True"
| "is_post (GET url) = False"

definition writes :: "request list \<Rightarrow> request list" where
  "writes rs = filter is_post rs"

definition issued :: "'a py \<Rightarrow> state \<Rightarrow> request list" where
  "issued m s = drop (length (sent s)) (sent (snd (m s)))"

definition tunnel_ready :: "state \<Rightarrow> bool" where
  "tunnel_ready s =
     (\<not> ssh_tunnel s \<or> (case tunnel s of Some (Started port) \<Rightarrow> True | _ \<Rightarrow> False))"

definition base_url :: "state \<Rightarrow> string" where
  "base_url s =
     (if ssh_tunnel s
      then ''https://127.0.0.1:'' @ (case tunnel s of Some (Started port) \<Rightarrow> dec_nat port | _ \<Rightarrow> [])
      else ''https://'' @ auer_address s)"

text \<open>Two calls of \<^verbatim>\<open>enable_autoswitch\<close> on one object, one after the other.\<close>

definition enable_twice :: "json py" where
  "enable_twice = bind_py enable_autoswitch (\<lambda>_. enable_autoswitch)"

text \<open>
  \<open>logs m k\<close>: from every state, \<open>m\<close> only appends to the log, at most \<open>k\<close> writes.
\<close>

definition logs :: "'a py \<Rightarrow> nat \<Rightarrow> bool" where
  "logs m k = (\<forall>s. \<exists>new. sent (snd (m s)) = sent s @ new \<and> length (writes new) \<le> k)"


section \<open>Reading the configuration list\<close>

text \<open>
  The test \<^verbatim>\<open>config["data"][1] == str(cfg_number)\<close> of \<^verbatim>\<open>switch_config\<close> is true
  of an entry (\<open>matches\<close>), false of it (\<open>skipped\<close>), or raises.
\<close>

definition matches :: "json \<Rightarrow> json \<Rightarrow> bool" where
  "matches cfg_number config = (ident_number config = Inr (JStr (str cfg_number)))"

definition skipped :: "json \<Rightarrow> json \<Rightarrow> bool" where
  "skipped cfg_number config =
     (case ident_number config of Inl e \<Rightarrow> False | Inr v \<Rightarrow> v \<noteq> JStr (str cfg_number))"

section \<open>Example environments\<close>

text \<open>
  An appliance at \<^verbatim>\<open>192.168.0.240\<close> reached directly, that answers every request
  with the given document, and the same appliance behind a started tunnel on
  local port 40001.
\<close>

definition direct :: "json \<Rightarrow> state" where
  "direct doc =
     \<lparr>ssh_tunnel = False, auer_address = ''192.168.0.240'', tunnel = None,
      pbx_info = None, pbx_tree = None, pbx_about = None, pbx_logstatus = None,
      appliance = (\<lambda>hist req. Inr (Some doc)), ssh_start = None,
      sent = [], stdout = [], stderr = []\<rparr>"

definition tunnelled :: "json \<Rightarrow> state" where
  "tunnelled doc =
     \<lparr>ssh_tunnel = True, auer_address = ''192.168.0.240'', tunnel = Some (Started 40001),
      pbx_info = None, pbx_tree = None, pbx_about = None, pbx_logstatus = None,
      appliance = (\<lambda>hist req. Inr (Some doc)), ssh_start = Some 40001,
      sent = [], stdout = [], stderr = []\<rparr>"

definition about_doc :: json where
  "about_doc = JObj [(''version'', JStr '' 7.4A ''), (''date'', JStr ''01.02.2021''), (''serial'', JStr ''1234567890'')]"

definition autoswitch_doc :: "json \<Rightarrow> json" where
  "autoswitch_doc cb =
     JObj [(''switchCfgCb'', cb), (''switchSysRelais'', JStr ''1''), (''switchSysRelaisName'', JStr ''Relais 1'')]"

definition tree_doc :: json where
  "tree_doc = JList [JObj [(''pbx'', JStr ''COMpact 5200''), (''pbxEdit'', JStr ''Office'')]]"

definition select_without_number :: args where
  "select_without_number = \<lparr>command = Select, number = None, debug = False\<rparr>"

text \<open>
  The configuration list of the specification's example, and one in which two
  entries carry the identification number 10.
\<close>

definition day_entry :: json where
  "day_entry = JObj [(''id'', JInt 1), (''data'', JList [JStr ''Day'', JStr ''10'']),
                     (''userdata'', JObj [(''active'', JBool True)])]"

definition night_entry :: json where
  "night_entry = JObj [(''id'', JInt 2), (''data'', JList [JStr ''Night'', JStr ''20''])]"

definition twin_entry :: json where
  "twin_entry = JObj [(''id'', JInt 2), (''data'', JList [JStr ''Night'', JStr ''10''])]"

definition day_night :: json where
  "day_night = JObj [(''rows'', JList [day_entry, night_entry])]"

definition duplicates :: json where
  "duplicates = JObj [(''rows'', JList [day_entry, twin_entry])]"

text \<open>
  An appliance that reports autoswitching as \<^verbatim>\<open>"0"\<close> until it has received a
  POST, and as \<^verbatim>\<open>"1"\<close> from then on.
\<close>

definition switching :: state where
  "switching =
     (direct JNull)\<lparr>appliance :=
        (\<lambda>hist req. Inr (Some (autoswitch_doc (if list_ex is_post hist then JStr ''1'' else JStr ''0''))))\<rparr>"

section \<open>Evaluating the builtins\<close>

lemma dec_nat_40001: "dec_nat 40001 = ''40001''"
  by (simp add: dec_nat.simps digit_char_def)

lemma str_small:
  "str (JInt 1) = ''1''" "str (JInt 2) = ''2''" "str (JInt 10) = ''10''"
  "str (JInt 20) = ''20''" "str (JInt 99) = ''99''"
  by (simp_all add: str_def str_int_def dec_nat.simps digit_char_def)

lemma strip_example: "strip '' 7.4A '' = ''7.4A''"
  by (simp add: strip_def isspace_def)

section \<open>The log of requests\<close>

lemma writes_simps [simp]:
  "writes [] = []"
  "writes (GET url # rs) = writes rs"
  "writes (POST url params data # rs) = POST url params data # writes rs"
  by (simp_all add: writes_def)

lemma writes_append [simp]: "writes (xs @ ys) = writes xs @ writes ys"
  by (simp add: writes_def)

lemma issued_eq: "sent (snd (m s)) = sent s @ new \<Longrightarrow> issued m s = new"
  by (simp add: issued_def)

section \<open>Transport lemmas\<close>

lemma fetch_ready:
  "tunnel_ready s \<Longrightarrow> fetch path s = session_get (base_url s @ path) s"
  by (auto simp: fetch_def tunnel_ready_def base_url_def bind_py_def local_bind_port_def
      split: option.splits forwarder.splits)

lemma send_ready:
  "tunnel_ready s \<Longrightarrow> send path params data s = session_post (base_url s @ path) params data s"
  by (auto simp: send_def tunnel_ready_def base_url_def bind_py_def local_bind_port_def
      split: option.splits forwarder.splits)

lemma fetch_not_ready:
  "\<not> tunnel_ready s \<Longrightarrow> \<exists>e. fetch path s = (Inl e, s)"
  by (auto simp: fetch_def tunnel_ready_def bind_py_def local_bind_port_def
      split: option.splits forwarder.splits)

lemma send_not_ready:
  "\<not> tunnel_ready s \<Longrightarrow> \<exists>e. send path params data s = (Inl e, s)"
  by (auto simp: send_def tunnel_ready_def bind_py_def local_bind_port_def
      split: option.splits forwarder.splits)

lemma fetch_json_ok:
  assumes "fst (bind_py (fetch path) (\<lambda>r. lift (response_json r)) s) = Inr doc"
  shows "tunnel_ready s"
    and "appliance s (sent s) (GET (base_url s @ path)) = Inr (Some doc)"
    and "bind_py (fetch path) (\<lambda>r. lift (response_json r)) s
           = (Inr doc, s\<lparr>sent := sent s @ [GET (base_url s @ path)]\<rparr>)"
proof -
  show ready: "tunnel_ready s"
  proof (rule ccontr)
    assume "\<not> tunnel_ready s"
    then obtain e where "fetch path s = (Inl e, s)" using fetch_not_ready by blast
    with assms show False by (simp add: bind_py_def)
  qed
  from assms ready show "appliance s (sent s) (GET (base_url s @ path)) = Inr (Some doc)"
    by (auto simp: fetch_ready bind_py_def session_get_def lift_def response_json_def
        split: sum.splits option.splits)
  from assms ready show "bind_py (fetch path) (\<lambda>r. lift (response_json r)) s
           = (Inr doc, s\<lparr>sent := sent s @ [GET (base_url s @ path)]\<rparr>)"
    by (auto simp: fetch_ready bind_py_def session_get_def lift_def response_json_def
        split: sum.splits option.splits)
qed

lemmas fetch_autoswitch_state_ok = fetch_json_ok [of "''/config_autoswitch_state''", folded fetch_autoswitch_state_def]
lemmas fetch_cfg_state_ok = fetch_json_ok [of "''/configs_state''", folded fetch_cfg_state_def]
lemmas fetch_pbx_about_ok = fetch_json_ok [of "''/about_state''", folded fetch_pbx_about_def]


section \<open>Log logic\<close>

lemma logs_mono: "logs m j \<Longrightarrow> j \<le> k \<Longrightarrow> logs m k"
  unfolding logs_def by (meson le_trans)

lemma logs_return: "logs (return_py x) 0"
  by (simp add: logs_def return_py_def writes_def)

lemma logs_raise: "logs (raise e) 0"
  by (simp add: logs_def raise_def writes_def)

lemma logs_lift: "logs (lift r) 0"
  by (simp add: logs_def lift_def writes_def)

lemma logs_attr: "logs (attr f) 0"
  by (simp add: logs_def attr_def writes_def split: option.splits)

lemma logs_print_line: "logs (print_line msg) 0"
  by (simp add: logs_def print_line_def writes_def)

lemma logs_parser_error: "logs (parser_error msg) 0"
  by (simp add: logs_def parser_error_def writes_def)

lemma logs_session_get: "logs (session_get url) 0"
  by (simp add: logs_def session_get_def writes_def)

lemma logs_session_post: "logs (session_post url params data) 1"
  by (simp add: logs_def session_post_def writes_def)

lemma logs_bind:
  assumes "logs m j" and "\<And>x. logs (f x) k"
  shows "logs (bind_py m f) (j + k)"
  unfolding logs_def
proof
  fix s
  from assms(1) obtain new1 where n1: "sent (snd (m s)) = sent s @ new1" "length (writes new1) \<le> j"
    unfolding logs_def by blast
  show "\<exists>new. sent (snd (bind_py m f s)) = sent s @ new \<and> length (writes new) \<le> j + k"
  proof (cases "m s")
    case (Pair r s')
    show ?thesis
    proof (cases r)
      case (Inl e)
      with Pair n1 show ?thesis by (auto simp: bind_py_def)
    next
      case (Inr x)
      from assms(2) obtain new2 where n2: "sent (snd (f x s')) = sent s' @ new2" "length (writes new2) \<le> k"
        unfolding logs_def by blast
      with Pair Inr n1 have "sent (snd (bind_py m f s)) = sent s @ (new1 @ new2)"
        by (simp add: bind_py_def)
      moreover from n1 n2 have "length (writes (new1 @ new2)) \<le> j + k"
        by (simp add: writes_def)
      ultimately show ?thesis by blast
    qed
  qed
qed

lemma logs_bind0:
  assumes "logs m 0" and "\<And>x. logs (f x) k"
  shows "logs (bind_py m f) k"
  using logs_bind [OF assms] by simp

lemma logs_if_state:
  assumes "logs m k" and "logs m' k"
  shows "logs (\<lambda>s. if c s then m s else m' s) k"
  using assms unfolding logs_def by auto

lemma logs_issued:
  assumes "logs m k"
  shows "sent (snd (m s)) = sent s @ issued m s" and "length (writes (issued m s)) \<le> k"
proof -
  from assms obtain new where "sent (snd (m s)) = sent s @ new" "length (writes new) \<le> k"
    unfolding logs_def by blast
  then show "sent (snd (m s)) = sent s @ issued m s" and "length (writes (issued m s)) \<le> k"
    by (simp_all add: issued_def)
qed

lemma logs_local_bind_port: "logs local_bind_port 0"
  by (simp add: logs_def local_bind_port_def writes_def split: option.splits forwarder.splits)

lemma logs_fetch: "logs (fetch path) 0"
  by (auto simp: logs_def fetch_def bind_py_def local_bind_port_def session_get_def writes_def
      split: option.splits forwarder.splits)

lemma logs_send: "logs (send path params data) 1"
  by (auto simp: logs_def send_def bind_py_def local_bind_port_def session_post_def writes_def
      split: option.splits forwarder.splits)

lemma logs_fetch_json: "logs (bind_py (fetch path) (\<lambda>r. lift (response_json r))) 0"
  by (intro logs_bind0 logs_fetch logs_lift)


section \<open>Transport: the target of every request\<close>

text \<open>
  C6. Without the SSH tunnel, \<^verbatim>\<open>_fetch\<close> and \<^verbatim>\<open>_send\<close> address
  \<^verbatim>\<open>https://<auer_address><path>\<close>; with the tunnel started on local port \<open>port\<close>
  they address \<^verbatim>\<open>https://127.0.0.1:<port><path>\<close>. In both cases the request
  is appended to the log and the caller gets what the appliance answers.
\<close>

theorem fetch_send_target_url:
  "(\<not> ssh_tunnel s \<longrightarrow>
      fetch path s =
        (appliance s (sent s) (GET (''https://'' @ auer_address s @ path)),
         s\<lparr>sent := sent s @ [GET (''https://'' @ auer_address s @ path)]\<rparr>) \<and>
      send path params data s =
        (appliance s (sent s) (POST (''https://'' @ auer_address s @ path) params data),
         s\<lparr>sent := sent s @ [POST (''https://'' @ auer_address s @ path) params data]\<rparr>)) \<and>
   (ssh_tunnel s \<and> tunnel s = Some (Started port) \<longrightarrow>
      fetch path s =
        (appliance s (sent s) (GET (''https://127.0.0.1:'' @ dec_nat port @ path)),
         s\<lparr>sent := sent s @ [GET (''https://127.0.0.1:'' @ dec_nat port @ path)]\<rparr>) \<and>
      send path params data s =
        (appliance s (sent s) (POST (''https://127.0.0.1:'' @ dec_nat port @ path) params data),
         s\<lparr>sent := sent s @ [POST (''https://127.0.0.1:'' @ dec_nat port @ path) params data]\<rparr>))"
  by (simp add: fetch_def send_def bind_py_def local_bind_port_def session_get_def session_post_def)



theorem fetch_send_target_url_witness:
  "sent (snd (fetch ''/tree'' (direct JNull))) = [GET ''https://192.168.0.240/tree''] \<and>
   sent (snd (send ''/configs_set'' (Some [(''configId'', JStr ''2'')]) None (direct JNull)))
     = [POST ''https://192.168.0.240/configs_set'' (Some [(''configId'', JStr ''2'')]) None] \<and>
   sent (snd (fetch ''/tree'' (tunnelled JNull))) = [GET ''https://127.0.0.1:40001/tree''] \<and>
   sent (snd (send ''/configs_set'' (Some [(''configId'', JStr ''2'')]) None (tunnelled JNull)))
     = [POST ''https://127.0.0.1:40001/configs_set'' (Some [(''configId'', JStr ''2'')]) None]"
  using fetch_send_target_url [of "direct JNull" "''/tree''" "Some [(''configId'', JStr ''2'')]" None 0]
    fetch_send_target_url [of "direct JNull" "''/configs_set''" "Some [(''configId'', JStr ''2'')]" None 0]
    fetch_send_target_url [of "tunnelled JNull" "''/tree''" "Some [(''configId'', JStr ''2'')]" None 40001]
    fetch_send_target_url [of "tunnelled JNull" "''/configs_set''" "Some [(''configId'', JStr ''2'')]" None 40001]
  by (simp add: direct_def tunnelled_def dec_nat_40001)

section \<open>Firmware version\<close>

lemma strip_suffix:
  "dropWhile isspace cs = strip cs @ rev (takeWhile isspace (rev (dropWhile isspace cs)))"
proof -
  let ?d = "dropWhile isspace cs"
  have "rev (rev ?d) = rev (takeWhile isspace (rev ?d) @ dropWhile isspace (rev ?d))"
    by (simp only: takeWhile_dropWhile_id)
  then show ?thesis
    by (simp only: rev_rev_ident rev_append strip_def)
qed

lemma strip_decompose:
  "\<exists>pre post. cs = pre @ strip cs @ post \<and> list_all isspace pre \<and> list_all isspace post"
proof -
  let ?d = "dropWhile isspace cs"
  have "cs = takeWhile isspace cs @ ?d" by simp
  then have "cs = takeWhile isspace cs @ strip cs @ rev (takeWhile isspace (rev ?d))"
    using strip_suffix [of cs] by simp
  moreover have "list_all isspace (takeWhile isspace cs)"
    by (simp add: list_all_iff) (meson set_takeWhileD)
  moreover have "list_all isspace (rev (takeWhile isspace (rev ?d)))"
    by (simp add: list_all_iff) (meson set_takeWhileD)
  ultimately show ?thesis by blast
qed

lemma strip_ends:
  assumes "strip cs \<noteq> []"
  shows "\<not> isspace (hd (strip cs))" and "\<not> isspace (last (strip cs))"
proof -
  let ?d = "dropWhile isspace cs"
  let ?e = "dropWhile isspace (rev ?d)"
  from assms have e: "?e \<noteq> []" by (simp add: strip_def)
  then have "\<not> isspace (hd ?e)" by (rule hd_dropWhile)
  with e show "\<not> isspace (last (strip cs))"
    by (simp add: strip_def last_rev)
  from assms have "hd ?d = hd (strip cs)"
    using strip_suffix [of cs] by (metis hd_append2)
  moreover from assms have "?d \<noteq> []"
    using strip_suffix [of cs] by (metis append_is_Nil_conv)
  then have "\<not> isspace (hd ?d)" by (rule hd_dropWhile)
  ultimately show "\<not> isspace (hd (strip cs))" by simp
qed

text \<open>
  C7. When the about document (cached, or fetched when no cache is set) holds the
  string \<open>raw\<close> under \<^verbatim>\<open>version\<close>, the firmware accessor returns \<open>raw\<close> without its
  leading and trailing whitespace: the result is a middle part of \<open>raw\<close>, what is
  cut off on both sides is whitespace only, and the result neither starts nor ends
  with whitespace.
\<close>

theorem pbx_firmware_strips_whitespace:
  assumes "pbx_about s = Some doc \<or> (pbx_about s = None \<and> fst (fetch_pbx_about s) = Inr doc)"
    and "getitem doc ''version'' = Inr (JStr raw)"
  shows "fst (pbx_firmware s) = Inr (JStr (strip raw)) \<and>
         (\<exists>pre post. raw = pre @ strip raw @ post \<and> list_all isspace pre \<and> list_all isspace post) \<and>
         (strip raw \<noteq> [] \<longrightarrow> \<not> isspace (hd (strip raw)) \<and> \<not> isspace (last (strip raw)))"
proof -
  from assms(1) have "fst (pbx_firmware s) = Inr (JStr (strip raw))"
  proof
    assume "pbx_about s = Some doc"
    with assms(2) show ?thesis
      by (simp add: pbx_firmware_def bind_py_def attr_def lift_def and_then_def)
  next
    assume a: "pbx_about s = None \<and> fst (fetch_pbx_about s) = Inr doc"
    then have "fetch_pbx_about s = (Inr doc, s\<lparr>sent := sent s @ [GET (base_url s @ ''/about_state'')]\<rparr>)"
      using fetch_pbx_about_ok(3) by blast
    with a assms(2) show ?thesis
      by (simp add: pbx_firmware_def bind_py_def attr_def lift_def and_then_def)
  qed
  with strip_decompose [of raw] strip_ends [of raw] show ?thesis by blast
qed

theorem pbx_firmware_strips_whitespace_witness:
  "fst (pbx_firmware (direct about_doc)) = Inr (JStr ''7.4A'')"
proof -
  have "pbx_about (direct about_doc) = None \<and> fst (fetch_pbx_about (direct about_doc)) = Inr about_doc"
    by (simp add: direct_def fetch_pbx_about_def fetch_def bind_py_def session_get_def lift_def
        response_json_def)
  moreover have "getitem about_doc ''version'' = Inr (JStr '' 7.4A '')"
    by (simp add: about_doc_def)
  ultimately show ?thesis
    using pbx_firmware_strips_whitespace [of "direct about_doc" about_doc "'' 7.4A ''"]
    by (simp add: strip_example)
qed


section \<open>Every action writes at most once\<close>

lemma logs_cache:
  assumes "\<And>doc s. sent (upd doc s) = sent s"
  shows "logs (\<lambda>s. if c s then bind_py (bind_py (fetch path) (\<lambda>r. lift (response_json r)))
                                  (\<lambda>doc s'. (Inr (), upd doc s')) s
                     else (Inr (), s)) 0"
proof (rule logs_if_state)
  have "\<And>doc. logs (\<lambda>s'. (Inr (), upd doc s')) 0"
    by (simp add: logs_def assms writes_def)
  then show "logs (bind_py (bind_py (fetch path) (\<lambda>r. lift (response_json r)))
                    (\<lambda>doc s'. (Inr (), upd doc s'))) 0"
    by (intro logs_bind0 logs_fetch_json)
  show "logs (\<lambda>s. (Inr (), s)) 0"
    by (simp add: logs_def writes_def)
qed

lemma logs_pbx_user: "logs pbx_user 0"
  unfolding pbx_user_def fetch_pbx_logstatus_def
  by (intro logs_bind0 logs_attr logs_lift logs_cache [where upd = "\<lambda>doc s'. s'\<lparr>pbx_logstatus := Some doc\<rparr>"]) simp

lemma logs_mgr_pbx_product: "logs mgr_pbx_product 0"
  unfolding mgr_pbx_product_def fetch_pbx_menu_tree_def
  by (intro logs_bind0 logs_attr logs_lift logs_cache [where upd = "\<lambda>doc s'. s'\<lparr>pbx_tree := Some doc\<rparr>"]) simp

lemma logs_mgr_pbx_name: "logs mgr_pbx_name 0"
  unfolding mgr_pbx_name_def fetch_pbx_menu_tree_def
  by (intro logs_bind0 logs_attr logs_lift logs_cache [where upd = "\<lambda>doc s'. s'\<lparr>pbx_tree := Some doc\<rparr>"]) simp

lemma logs_switch_pbx_product: "logs switch_pbx_product 0"
  unfolding switch_pbx_product_def fetch_pbx_info_def
  by (intro logs_bind0 logs_attr logs_lift logs_cache [where upd = "\<lambda>doc s'. s'\<lparr>pbx_info := Some doc\<rparr>"]) simp

lemma logs_switch_pbx_name: "logs switch_pbx_name 0"
  unfolding switch_pbx_name_def fetch_pbx_info_def
  by (intro logs_bind0 logs_attr logs_lift logs_cache [where upd = "\<lambda>doc s'. s'\<lparr>pbx_info := Some doc\<rparr>"]) simp

lemma logs_pbx_firmware: "logs pbx_firmware 0"
  unfolding pbx_firmware_def fetch_pbx_about_def
  by (intro logs_bind0 logs_attr logs_lift logs_cache [where upd = "\<lambda>doc s'. s'\<lparr>pbx_about := Some doc\<rparr>"]) simp

lemma logs_pbx_date: "logs pbx_date 0"
  unfolding pbx_date_def fetch_pbx_about_def
  by (intro logs_bind0 logs_attr logs_lift logs_cache [where upd = "\<lambda>doc s'. s'\<lparr>pbx_about := Some doc\<rparr>"]) simp

lemma logs_pbx_serial: "logs pbx_serial 0"
  unfolding pbx_serial_def fetch_pbx_about_def
  by (intro logs_bind0 logs_attr logs_lift logs_cache [where upd = "\<lambda>doc s'. s'\<lparr>pbx_about := Some doc\<rparr>"]) simp

lemma logs_show_rows: "logs (show_rows rows) 0"
  by (induction rows) (auto intro!: logs_bind0 logs_lift logs_return)

lemma logs_show_tables: "logs show_tables 0"
  unfolding show_tables_def fetch_autoswitch_state_def fetch_cfg_state_def
  by (intro logs_bind0 logs_fetch_json logs_lift logs_print_line logs_show_rows)

lemma logs_show_configurations: "logs (show_configurations file) 0"
  unfolding show_configurations_def mgr_show_configurations_def switch_show_configurations_def
  by (cases "file")
    (auto intro!: logs_bind0 logs_show_tables logs_mgr_pbx_product logs_mgr_pbx_name
      logs_switch_pbx_product logs_switch_pbx_name logs_pbx_firmware logs_pbx_date
      logs_pbx_serial logs_pbx_user)

lemma logs_if: "logs m k \<Longrightarrow> logs m' k \<Longrightarrow> logs (if c then m else m') k"
  by simp

lemma logs_post_then:
  assumes "\<And>x. logs (f x) 0"
  shows "logs (bind_py (send path params data) f) 1"
  using logs_bind [OF logs_send, of f 0 path params data] assms by simp

lemma logs_enable_autoswitch: "logs enable_autoswitch 1"
  unfolding enable_autoswitch_def fetch_autoswitch_state_def
  by (intro logs_bind0 logs_fetch_json logs_lift logs_if logs_post_then logs_return
      logs_mono [OF logs_return])  simp

lemma logs_disable_autoswitch: "logs disable_autoswitch 1"
  unfolding disable_autoswitch_def fetch_autoswitch_state_def
  by (intro logs_bind0 logs_fetch_json logs_lift logs_if logs_post_then logs_return
      logs_mono [OF logs_return])  simp

lemma logs_switch_config_loop: "logs (switch_config_loop cfg_number rows) 1"
proof (induction rows)
  case Nil
  have "logs (switch_config_loop cfg_number []) 0"
    by (auto intro!: logs_bind0 logs_print_line logs_raise)
  then show ?case by (rule logs_mono) simp
next
  case (Cons config rest)
  show ?case
    unfolding switch_config_loop.simps
    by (intro logs_bind0 logs_lift logs_if logs_post_then logs_return Cons.IH
        logs_mono [OF logs_return]) simp
qed

lemma logs_switch_config: "logs (switch_config cfg_number) 1"
  unfolding switch_config_def fetch_cfg_state_def
  by (intro logs_bind0 logs_fetch_json logs_lift logs_switch_config_loop)

lemma logs_connect: "logs connect_ssh_tunnel 0"
  by (simp add: logs_def connect_ssh_tunnel_def writes_def split: option.splits)

lemma logs_disconnect: "logs disconnect_ssh_tunnel 0"
  by (simp add: logs_def disconnect_ssh_tunnel_def writes_def split: option.splits)

lemma logs_then_show:
  assumes "logs m 1"
  shows "logs (bind_py m (\<lambda>_. show_configurations file)) 1"
  using logs_bind [OF assms, of "\<lambda>_. show_configurations file" 0] logs_show_configurations by simp

lemma logs_main: "logs (main file a) 1"
proof -
  let ?dispatch = "case command a of
                   Show \<Rightarrow> show_configurations file
                 | Enable \<Rightarrow> bind_py enable_autoswitch (\<lambda>_. show_configurations file)
                 | Disable \<Rightarrow> bind_py disable_autoswitch (\<lambda>_. show_configurations file)
                 | Select \<Rightarrow>
                     bind_py (switch_config (case number a of None \<Rightarrow> JNull | Some n \<Rightarrow> JInt n))
                       (\<lambda>_. show_configurations file)"
  let ?tail = "\<lambda>s. if ssh_tunnel s then disconnect_ssh_tunnel s else return_py () s"
  let ?connect = "\<lambda>s. if ssh_tunnel s then bind_py connect_ssh_tunnel (\<lambda>_. return_py ()) s
                      else return_py () s"
  have dispatch: "logs ?dispatch 1"
  proof -
    have "logs (show_configurations file) 1"
      by (rule logs_mono [OF logs_show_configurations]) simp
    moreover have "logs (bind_py enable_autoswitch (\<lambda>_. show_configurations file)) 1"
      by (rule logs_then_show [OF logs_enable_autoswitch])
    moreover have "logs (bind_py disable_autoswitch (\<lambda>_. show_configurations file)) 1"
      by (rule logs_then_show [OF logs_disable_autoswitch])
    moreover have "\<And>n. logs (bind_py (switch_config n) (\<lambda>_. show_configurations file)) 1"
      by (rule logs_then_show [OF logs_switch_config])
    ultimately show ?thesis
      by (cases "command a") simp_all
  qed
  have tail: "logs ?tail 0"
    by (intro logs_if_state logs_disconnect logs_return)
  have connect: "logs ?connect 0"
    by (intro logs_if_state logs_bind0 logs_connect logs_return)
  have dbg: "logs (if debug a then enable_debug else return_py ()) 0"
    by (simp add: enable_debug_def logs_return)
  have run: "logs (bind_py ?dispatch (\<lambda>_. ?tail)) 1"
    using logs_bind [OF dispatch, of "\<lambda>_. ?tail" 0] tail by simp
  have "logs (bind_py ?connect (\<lambda>_. bind_py ?dispatch (\<lambda>_. ?tail))) 1"
    by (rule logs_bind0 [OF connect]) (rule run)
  then have "logs (bind_py (if debug a then enable_debug else return_py ())
               (\<lambda>_. bind_py ?connect (\<lambda>_. bind_py ?dispatch (\<lambda>_. ?tail)))) 1"
    by (rule logs_bind0 [OF dbg])
  moreover have "logs (parser_error select_requires_number :: unit py) 1"
    by (rule logs_mono [OF logs_parser_error]) simp
  ultimately show ?thesis
    unfolding main_def by (rule logs_if [rotated])
qed

text \<open>
  C8. From every state, each of \<^verbatim>\<open>enable_autoswitch\<close>, \<^verbatim>\<open>disable_autoswitch\<close>
  and \<^verbatim>\<open>switch_config\<close> only appends to the log of requests, and what it appends
  holds at most one POST; the same is true of a whole run of \<^verbatim>\<open>main\<close>,
  whatever the command and the script.
\<close>

theorem actions_write_at_most_once:
  "sent (snd (enable_autoswitch s)) = sent s @ issued enable_autoswitch s \<and>
   length (writes (issued enable_autoswitch s)) \<le> 1 \<and>
   sent (snd (disable_autoswitch s)) = sent s @ issued disable_autoswitch s \<and>
   length (writes (issued disable_autoswitch s)) \<le> 1 \<and>
   sent (snd (switch_config cfg_number s)) = sent s @ issued (switch_config cfg_number) s \<and>
   length (writes (issued (switch_config cfg_number) s)) \<le> 1 \<and>
   sent (snd (main file a s)) = sent s @ issued (main file a) s \<and>
   length (writes (issued (main file a) s)) \<le> 1"
  using logs_issued [OF logs_enable_autoswitch, of s] logs_issued [OF logs_disable_autoswitch, of s]
    logs_issued [OF logs_switch_config, of cfg_number s] logs_issued [OF logs_main, of "file" a s]
  by simp


section \<open>The autoswitch actions\<close>

lemma after_fetch [simp]:
  "tunnel_ready (s\<lparr>sent := rs\<rparr>) = tunnel_ready s"
  "base_url (s\<lparr>sent := rs\<rparr>) = base_url s"
  by (simp_all add: tunnel_ready_def base_url_def)

text \<open>What \<^verbatim>\<open>enable_autoswitch\<close> and \<^verbatim>\<open>disable_autoswitch\<close> do once the state is fetched.\<close>

lemma enable_autoswitch_run:
  assumes "fst (fetch_autoswitch_state s) = Inr current"
    and "getitem current ''switchCfgCb'' = Inr cb"
  shows "cb = JStr ''1'' \<Longrightarrow>
           enable_autoswitch s =
             (Inr (JBool True), s\<lparr>sent := sent s @ [GET (base_url s @ ''/config_autoswitch_state'')]\<rparr>)"
    and "cb \<noteq> JStr ''1'' \<Longrightarrow> getitem current ''switchSysRelaisName'' = Inr name \<Longrightarrow>
           sent (snd (enable_autoswitch s)) =
             sent s @ [GET (base_url s @ ''/config_autoswitch_state''),
                       POST (base_url s @ ''/config_autoswitch_save'') None
                         (Some [(''switchCfgCb'', JStr ''switchCfgCb''),
                                (''switchSysRelais'', JStr ''switchSysRelais''),
                                (''switchSysRelaisName'', name)])] \<and>
           fst (enable_autoswitch s) \<noteq> Inr (JBool True)"
    and "cb \<noteq> JStr ''1'' \<Longrightarrow> getitem current ''switchSysRelaisName'' = Inl e \<Longrightarrow>
           enable_autoswitch s =
             (Inl e, s\<lparr>sent := sent s @ [GET (base_url s @ ''/config_autoswitch_state'')]\<rparr>)"
  using fetch_autoswitch_state_ok [OF assms(1)] assms(2)
  by (auto simp: enable_autoswitch_def bind_py_def lift_def return_py_def send_ready
      session_post_def split: sum.splits)

lemma disable_autoswitch_run:
  assumes "fst (fetch_autoswitch_state s) = Inr current"
    and "getitem current ''switchCfgCb'' = Inr cb"
  shows "cb = JStr ''0'' \<Longrightarrow>
           disable_autoswitch s =
             (Inr (JBool True), s\<lparr>sent := sent s @ [GET (base_url s @ ''/config_autoswitch_state'')]\<rparr>)"
    and "cb \<noteq> JStr ''0'' \<Longrightarrow> getitem current ''switchSysRelaisName'' = Inr name \<Longrightarrow>
           sent (snd (disable_autoswitch s)) =
             sent s @ [GET (base_url s @ ''/config_autoswitch_state''),
                       POST (base_url s @ ''/config_autoswitch_save'') None
                         (Some [(''switchSysRelais'', JStr ''switchSysRelais''),
                                (''switchSysRelaisName'', name)])] \<and>
           fst (disable_autoswitch s) \<noteq> Inr (JBool True)"
    and "cb \<noteq> JStr ''0'' \<Longrightarrow> getitem current ''switchSysRelaisName'' = Inl e \<Longrightarrow>
           disable_autoswitch s =
             (Inl e, s\<lparr>sent := sent s @ [GET (base_url s @ ''/config_autoswitch_state'')]\<rparr>)"
  using fetch_autoswitch_state_ok [OF assms(1)] assms(2)
  by (auto simp: disable_autoswitch_def bind_py_def lift_def return_py_def send_ready
      session_post_def split: sum.splits)

lemma no_fetch_no_write:
  assumes "fst (m s) = Inl e" and "logs m 0"
  shows "\<exists>new. sent (snd (bind_py m f s)) = sent s @ new \<and> writes new = []"
proof -
  from assms(2) obtain new where "sent (snd (m s)) = sent s @ new" "length (writes new) \<le> 0"
    unfolding logs_def by blast
  moreover from assms(1) have "bind_py m f s = (Inl e, snd (m s))"
    by (cases "m s") (simp add: bind_py_def)
  ultimately show ?thesis by auto
qed


lemma autoswitch_no_flag:
  assumes "fst (fetch_autoswitch_state s) = Inr current"
    and "getitem current ''switchCfgCb'' = Inl e"
  shows "enable_autoswitch s =
           (Inl e, s\<lparr>sent := sent s @ [GET (base_url s @ ''/config_autoswitch_state'')]\<rparr>)"
    and "disable_autoswitch s =
           (Inl e, s\<lparr>sent := sent s @ [GET (base_url s @ ''/config_autoswitch_state'')]\<rparr>)"
  using fetch_autoswitch_state_ok [OF assms(1)] assms(2)
  by (auto simp: enable_autoswitch_def disable_autoswitch_def bind_py_def lift_def)

lemmas run_defs =
  fetch_def send_def bind_py_def lift_def return_py_def raise_def attr_def print_line_def
  session_get_def session_post_def response_json_def local_bind_port_def and_then_def
  fetch_autoswitch_state_def fetch_cfg_state_def fetch_pbx_about_def fetch_pbx_info_def
  fetch_pbx_menu_tree_def fetch_pbx_logstatus_def issued_def writes_def base_url_def

text \<open>
  C3. If a run of \<^verbatim>\<open>disable_autoswitch\<close> adds a POST to the log, then the state
  fetch at the start of that run succeeded, the run added exactly that fetch and
  this POST, the POST goes to \<^verbatim>\<open>/config_autoswitch_save\<close> with no query
  parameters, and its form consists of \<^verbatim>\<open>switchSysRelais\<close> and of
  \<^verbatim>\<open>switchSysRelaisName\<close> with the value just fetched; it has no
  \<^verbatim>\<open>switchCfgCb\<close>.
\<close>

theorem disable_autoswitch_posts_fetched_relay_name:
  assumes "sent (snd (disable_autoswitch s)) = sent s @ new"
    and "POST url params data \<in> set new"
  shows "\<exists>current name form.
           fst (fetch_autoswitch_state s) = Inr current \<and>
           getitem current ''switchSysRelaisName'' = Inr name \<and>
           new = [GET (base_url s @ ''/config_autoswitch_state''), POST url params data] \<and>
           url = base_url s @ ''/config_autoswitch_save'' \<and> params = None \<and> data = Some form \<and>
           form = [(''switchSysRelais'', JStr ''switchSysRelais''), (''switchSysRelaisName'', name)] \<and>
           map_of form ''switchSysRelaisName'' = Some name \<and>
           map_of form ''switchSysRelais'' = Some (JStr ''switchSysRelais'') \<and>
           map_of form ''switchCfgCb'' = None"
proof (cases "fst (fetch_autoswitch_state s)")
  case (Inl e)
  have "logs fetch_autoswitch_state 0"
    unfolding fetch_autoswitch_state_def by (rule logs_fetch_json)
  from no_fetch_no_write [OF Inl this]
  obtain new' where "sent (snd (disable_autoswitch s)) = sent s @ new'" "writes new' = []"
    unfolding disable_autoswitch_def by blast
  with assms have "POST url params data \<in> set new" "writes new = []" by auto
  then have False
    by (auto simp: writes_def filter_empty_conv)
  then show ?thesis ..
next
  case (Inr current)
  show ?thesis
  proof (cases "getitem current ''switchCfgCb''")
    case (Inl e)
    from autoswitch_no_flag(2) [OF Inr Inl] assms show ?thesis by auto
  next
    case cb: (Inr cb)
    show ?thesis
    proof (cases "cb = JStr ''0''")
      case True
      from disable_autoswitch_run(1) [OF Inr cb True] assms show ?thesis by auto
    next
      case False
      show ?thesis
      proof (cases "getitem current ''switchSysRelaisName''")
        case (Inl e)
        from disable_autoswitch_run(3) [OF Inr cb False Inl] assms show ?thesis by auto
      next
        case name: (Inr name)
        from disable_autoswitch_run(2) [OF Inr cb False name] assms Inr name show ?thesis by auto
      qed
    qed
  qed
qed

theorem disable_autoswitch_posts_fetched_relay_name_witness:
  "sent (snd (disable_autoswitch (direct (autoswitch_doc (JStr ''1''))))) =
     sent (direct (autoswitch_doc (JStr ''1''))) @
       [GET ''https://192.168.0.240/config_autoswitch_state'',
        POST ''https://192.168.0.240/config_autoswitch_save'' None
          (Some [(''switchSysRelais'', JStr ''switchSysRelais''),
                 (''switchSysRelaisName'', JStr ''Relais 1'')])] \<and>
   getitem (autoswitch_doc (JStr ''1'')) ''switchSysRelaisName'' = Inr (JStr ''Relais 1'') \<and>
   fst (fetch_autoswitch_state (direct (autoswitch_doc (JStr ''1'')))) = Inr (autoswitch_doc (JStr ''1''))"
proof -
  let ?s = "direct (autoswitch_doc (JStr ''1''))"
  let ?g = "GET ''https://192.168.0.240/config_autoswitch_state''"
  let ?p = "POST ''https://192.168.0.240/config_autoswitch_save'' None
          (Some [(''switchSysRelais'', JStr ''switchSysRelais''),
                 (''switchSysRelaisName'', JStr ''Relais 1'')])"
  have run: "sent (snd (disable_autoswitch ?s)) = sent ?s @ [?g, ?p]"
    by (simp add: disable_autoswitch_def direct_def autoswitch_doc_def run_defs)
  have mem: "?p \<in> set [?g, ?p]" by simp
  have f: "fst (fetch_autoswitch_state ?s) = Inr (autoswitch_doc (JStr ''1''))"
    by (simp add: direct_def run_defs)
  from disable_autoswitch_posts_fetched_relay_name [OF run mem] run f
  show ?thesis
    by (auto simp: autoswitch_doc_def)
qed

text \<open>
  C10. Let the fetched state hold \<open>cb\<close> under \<^verbatim>\<open>switchCfgCb\<close>.
  \<^verbatim>\<open>enable_autoswitch\<close> takes its no-op branch (only the fetch, result \<^verbatim>\<open>True\<close>)
  exactly when \<open>cb\<close> is the string \<^verbatim>\<open>"1"\<close>, and \<^verbatim>\<open>disable_autoswitch\<close> exactly when
  \<open>cb\<close> is the string \<^verbatim>\<open>"0"\<close>. On every other object, of whatever type and
  truth value, the action goes on to build its form from
  \<^verbatim>\<open>current["switchSysRelaisName"]\<close> and to POST it to
  \<^verbatim>\<open>/config_autoswitch_save\<close> (the lookup raises, and nothing is posted, only when
  the state has no such key). In particular both actions post when \<open>cb\<close> is neither
  string, \<^verbatim>\<open>enable_autoswitch\<close> posts on \<^verbatim>\<open>"0"\<close> and \<^verbatim>\<open>disable_autoswitch\<close> on
  \<^verbatim>\<open>"1"\<close>.
\<close>

theorem autoswitch_guards_recognize_only_exact_strings:
  assumes "fst (fetch_autoswitch_state s) = Inr current"
    and "getitem current ''switchCfgCb'' = Inr cb"
  shows "issued enable_autoswitch s =
           GET (base_url s @ ''/config_autoswitch_state'') #
           (if cb = JStr ''1'' then []
            else (case getitem current ''switchSysRelaisName'' of
                    Inl e \<Rightarrow> []
                  | Inr name \<Rightarrow>
                      [POST (base_url s @ ''/config_autoswitch_save'') None
                         (Some [(''switchCfgCb'', JStr ''switchCfgCb''),
                                (''switchSysRelais'', JStr ''switchSysRelais''),
                                (''switchSysRelaisName'', name)])])) \<and>
         (fst (enable_autoswitch s) = Inr (JBool True)) = (cb = JStr ''1'') \<and>
         issued disable_autoswitch s =
           GET (base_url s @ ''/config_autoswitch_state'') #
           (if cb = JStr ''0'' then []
            else (case getitem current ''switchSysRelaisName'' of
                    Inl e \<Rightarrow> []
                  | Inr name \<Rightarrow>
                      [POST (base_url s @ ''/config_autoswitch_save'') None
                         (Some [(''switchSysRelais'', JStr ''switchSysRelais''),
                                (''switchSysRelaisName'', name)])])) \<and>
         (fst (disable_autoswitch s) = Inr (JBool True)) = (cb = JStr ''0'')"
proof -
  have enable:
    "issued enable_autoswitch s =
           GET (base_url s @ ''/config_autoswitch_state'') #
           (if cb = JStr ''1'' then []
            else (case getitem current ''switchSysRelaisName'' of
                    Inl e \<Rightarrow> []
                  | Inr name \<Rightarrow>
                      [POST (base_url s @ ''/config_autoswitch_save'') None
                         (Some [(''switchCfgCb'', JStr ''switchCfgCb''),
                                (''switchSysRelais'', JStr ''switchSysRelais''),
                                (''switchSysRelaisName'', name)])])) \<and>
         (fst (enable_autoswitch s) = Inr (JBool True)) = (cb = JStr ''1'')"
  proof (cases "cb = JStr ''1''")
    case True
    from enable_autoswitch_run(1) [OF assms True] True show ?thesis
      by (simp add: issued_def)
  next
    case False
    show ?thesis
    proof (cases "getitem current ''switchSysRelaisName''")
      case (Inl e)
      from enable_autoswitch_run(3) [OF assms False Inl] False Inl show ?thesis
        by (simp add: issued_def)
    next
      case (Inr name)
      from enable_autoswitch_run(2) [OF assms False Inr] False Inr show ?thesis
        by (simp add: issued_def)
    qed
  qed
  have disable:
    "issued disable_autoswitch s =
           GET (base_url s @ ''/config_autoswitch_state'') #
           (if cb = JStr ''0'' then []
            else (case getitem current ''switchSysRelaisName'' of
                    Inl e \<Rightarrow> []
                  | Inr name \<Rightarrow>
                      [POST (base_url s @ ''/config_autoswitch_save'') None
                         (Some [(''switchSysRelais'', JStr ''switchSysRelais''),
                                (''switchSysRelaisName'', name)])])) \<and>
         (fst (disable_autoswitch s) = Inr (JBool True)) = (cb = JStr ''0'')"
  proof (cases "cb = JStr ''0''")
    case True
    from disable_autoswitch_run(1) [OF assms True] True show ?thesis
      by (simp add: issued_def)
  next
    case False
    show ?thesis
    proof (cases "getitem current ''switchSysRelaisName''")
      case (Inl e)
      from disable_autoswitch_run(3) [OF assms False Inl] False Inl show ?thesis
        by (simp add: issued_def)
    next
      case (Inr name)
      from disable_autoswitch_run(2) [OF assms False Inr] False Inr show ?thesis
        by (simp add: issued_def)
    qed
  qed
  from enable disable show ?thesis by blast
qed

theorem autoswitch_guards_recognize_only_exact_strings_witness:
  "issued enable_autoswitch (direct (autoswitch_doc (JBool True))) =
     [GET ''https://192.168.0.240/config_autoswitch_state'',
      POST ''https://192.168.0.240/config_autoswitch_save'' None
        (Some [(''switchCfgCb'', JStr ''switchCfgCb''),
               (''switchSysRelais'', JStr ''switchSysRelais''),
               (''switchSysRelaisName'', JStr ''Relais 1'')])] \<and>
   issued disable_autoswitch (direct (autoswitch_doc (JInt 0))) =
     [GET ''https://192.168.0.240/config_autoswitch_state'',
      POST ''https://192.168.0.240/config_autoswitch_save'' None
        (Some [(''switchSysRelais'', JStr ''switchSysRelais''),
               (''switchSysRelaisName'', JStr ''Relais 1'')])] \<and>
   issued enable_autoswitch (direct (autoswitch_doc (JStr ''0''))) =
     [GET ''https://192.168.0.240/config_autoswitch_state'',
      POST ''https://192.168.0.240/config_autoswitch_save'' None
        (Some [(''switchCfgCb'', JStr ''switchCfgCb''),
               (''switchSysRelais'', JStr ''switchSysRelais''),
               (''switchSysRelaisName'', JStr ''Relais 1'')])] \<and>
   issued disable_autoswitch (direct (autoswitch_doc (JStr ''0''))) =
     [GET ''https://192.168.0.240/config_autoswitch_state''] \<and>
   fst (disable_autoswitch (direct (autoswitch_doc (JStr ''0'')))) = Inr (JBool True) \<and>
   issued enable_autoswitch (direct (autoswitch_doc (JStr ''1''))) =
     [GET ''https://192.168.0.240/config_autoswitch_state''] \<and>
   fst (enable_autoswitch (direct (autoswitch_doc (JStr ''1'')))) = Inr (JBool True) \<and>
   issued disable_autoswitch (direct (autoswitch_doc (JStr ''1''))) =
     [GET ''https://192.168.0.240/config_autoswitch_state'',
      POST ''https://192.168.0.240/config_autoswitch_save'' None
        (Some [(''switchSysRelais'', JStr ''switchSysRelais''),
               (''switchSysRelaisName'', JStr ''Relais 1'')])] \<and>
   issued enable_autoswitch (direct (autoswitch_doc (JStr []))) =
     [GET ''https://192.168.0.240/config_autoswitch_state'',
      POST ''https://192.168.0.240/config_autoswitch_save'' None
        (Some [(''switchCfgCb'', JStr ''switchCfgCb''),
               (''switchSysRelais'', JStr ''switchSysRelais''),
               (''switchSysRelaisName'', JStr ''Relais 1'')])]"
proof -
  have f: "fst (fetch_autoswitch_state (direct (autoswitch_doc cb))) = Inr (autoswitch_doc cb)" for cb
    by (simp add: direct_def run_defs)
  have g: "getitem (autoswitch_doc cb) ''switchCfgCb'' = Inr cb" for cb
    by (simp add: autoswitch_doc_def)
  have name: "getitem (autoswitch_doc cb) ''switchSysRelaisName'' = Inr (JStr ''Relais 1'')" for cb
    by (simp add: autoswitch_doc_def)
  have url: "base_url (direct doc) = ''https://192.168.0.240''" for doc
    by (simp add: base_url_def direct_def)
  from autoswitch_guards_recognize_only_exact_strings [OF f g, of "JBool True"]
    autoswitch_guards_recognize_only_exact_strings [OF f g, of "JInt 0"]
    autoswitch_guards_recognize_only_exact_strings [OF f g, of "JStr ''0''"]
    autoswitch_guards_recognize_only_exact_strings [OF f g, of "JStr ''1''"]
    autoswitch_guards_recognize_only_exact_strings [OF f g, of "JStr []"]
  show ?thesis
    by (simp add: name url)
qed

section \<open>Cached accessors\<close>

text \<open>
  An accessor whose guard tests the attribute it stores fetches only while the
  attribute is unset: \<^verbatim>\<open>_pbx_firmware\<close>, \<^verbatim>\<open>_pbx_date\<close>, \<^verbatim>\<open>_pbx_serial\<close>,
  \<^verbatim>\<open>_pbx_user\<close>, and \<^verbatim>\<open>_pbx_product\<close> and \<^verbatim>\<open>_pbx_name\<close> of
  \<^verbatim>\<open>auer_cfg_switch.py\<close>.
\<close>

lemma cached_accessors_do_not_fetch:
  "pbx_about s = Some doc \<Longrightarrow> issued pbx_firmware s = []"
  "pbx_about s = Some doc \<Longrightarrow> issued pbx_date s = []"
  "pbx_about s = Some doc \<Longrightarrow> issued pbx_serial s = []"
  "pbx_logstatus s = Some doc \<Longrightarrow> issued pbx_user s = []"
  "pbx_info s = Some doc \<Longrightarrow> issued switch_pbx_product s = []"
  "pbx_info s = Some doc \<Longrightarrow> issued switch_pbx_name s = []"
  by (simp_all add: pbx_firmware_def pbx_date_def pbx_serial_def pbx_user_def
      switch_pbx_product_def switch_pbx_name_def issued_def bind_py_def attr_def lift_def)

lemma first_call_caches:
  "fst (fetch_pbx_about s) = Inr doc \<Longrightarrow> pbx_about s = None \<Longrightarrow>
     pbx_about (snd (pbx_firmware s)) = Some doc \<and> pbx_about (snd (pbx_date s)) = Some doc \<and>
     pbx_about (snd (pbx_serial s)) = Some doc"
  "fst (fetch_pbx_logstatus s) = Inr doc \<Longrightarrow> pbx_logstatus s = None \<Longrightarrow>
     pbx_logstatus (snd (pbx_user s)) = Some doc"
  "fst (fetch_pbx_info s) = Inr doc \<Longrightarrow> pbx_info s = None \<Longrightarrow>
     pbx_info (snd (switch_pbx_product s)) = Some doc \<and> pbx_info (snd (switch_pbx_name s)) = Some doc"
proof -
  show "fst (fetch_pbx_about s) = Inr doc \<Longrightarrow> pbx_about s = None \<Longrightarrow>
     pbx_about (snd (pbx_firmware s)) = Some doc \<and> pbx_about (snd (pbx_date s)) = Some doc \<and>
     pbx_about (snd (pbx_serial s)) = Some doc"
    using fetch_pbx_about_ok(3) [of s doc]
    by (simp add: pbx_firmware_def pbx_date_def pbx_serial_def bind_py_def attr_def lift_def)
  show "fst (fetch_pbx_logstatus s) = Inr doc \<Longrightarrow> pbx_logstatus s = None \<Longrightarrow>
     pbx_logstatus (snd (pbx_user s)) = Some doc"
    using fetch_json_ok(3) [of "''/logstatus_state''" s doc, folded fetch_pbx_logstatus_def]
    by (simp add: pbx_user_def bind_py_def attr_def lift_def)
  show "fst (fetch_pbx_info s) = Inr doc \<Longrightarrow> pbx_info s = None \<Longrightarrow>
     pbx_info (snd (switch_pbx_product s)) = Some doc \<and> pbx_info (snd (switch_pbx_name s)) = Some doc"
    using fetch_json_ok(3) [of "''/tree''" s doc, folded fetch_pbx_info_def]
    by (simp add: switch_pbx_product_def switch_pbx_name_def bind_py_def attr_def lift_def)
qed

text \<open>
  C4, as far as the code goes. In \<^verbatim>\<open>auer_cfg_mgr.py\<close> the guard of
  \<^verbatim>\<open>_pbx_product\<close> and \<^verbatim>\<open>_pbx_name\<close> tests \<^verbatim>\<open>pbx_info\<close>, which nothing sets,
  while the document is stored in \<^verbatim>\<open>pbx_tree\<close>. So after a first call that
  fetched and stored the menu tree, a second call fetches \<^verbatim>\<open>/tree\<close> again.
\<close>

theorem mgr_pbx_product_fetches_again:
  assumes "pbx_info s = None" and "fst (fetch_pbx_menu_tree s) = Inr doc"
  shows "pbx_tree (snd (mgr_pbx_product s)) = Some doc \<and>
         issued mgr_pbx_product s = [GET (base_url s @ ''/tree'')] \<and>
         issued mgr_pbx_product (snd (mgr_pbx_product s)) = [GET (base_url s @ ''/tree'')] \<and>
         issued mgr_pbx_name (snd (mgr_pbx_product s)) = [GET (base_url s @ ''/tree'')]"
proof -
  note ok = fetch_json_ok [of "''/tree''" s doc, folded fetch_pbx_menu_tree_def, OF assms(2)]
  let ?s1 = "s\<lparr>sent := sent s @ [GET (base_url s @ ''/tree'')], pbx_tree := Some doc\<rparr>"
  from assms(1) ok(3) have s1: "snd (mgr_pbx_product s) = ?s1"
    by (simp add: mgr_pbx_product_def bind_py_def attr_def lift_def)
  have ready: "tunnel_ready ?s1" "base_url ?s1 = base_url s"
    using ok(1) by (simp_all add: tunnel_ready_def base_url_def)
  have again: "sent (snd (fetch_pbx_menu_tree ?s1)) = sent ?s1 @ [GET (base_url s @ ''/tree'')]"
    using ready
    by (simp add: fetch_pbx_menu_tree_def bind_py_def fetch_ready session_get_def lift_def
        split: sum.splits)
  have "sent (snd (mgr_pbx_product ?s1)) = sent ?s1 @ [GET (base_url s @ ''/tree'')]"
    using assms(1) again
    by (cases "fetch_pbx_menu_tree ?s1")
      (auto simp: mgr_pbx_product_def bind_py_def attr_def lift_def split: sum.splits)
  moreover have "sent (snd (mgr_pbx_name ?s1)) = sent ?s1 @ [GET (base_url s @ ''/tree'')]"
    using assms(1) again
    by (cases "fetch_pbx_menu_tree ?s1")
      (auto simp: mgr_pbx_name_def bind_py_def attr_def lift_def split: sum.splits)
  ultimately show ?thesis
    using s1 by (simp add: issued_def)
qed

theorem mgr_pbx_product_fetches_again_witness:
  "sent (snd (mgr_pbx_product (snd (mgr_pbx_product (direct tree_doc))))) =
     [GET ''https://192.168.0.240/tree'', GET ''https://192.168.0.240/tree''] \<and>
   pbx_tree (snd (mgr_pbx_product (direct tree_doc))) = Some tree_doc \<and>
   fst (mgr_pbx_product (snd (mgr_pbx_product (direct tree_doc)))) = Inr (JStr ''COMpact 5200'')"
proof -
  have a: "pbx_info (direct tree_doc) = None" by (simp add: direct_def)
  have b: "fst (fetch_pbx_menu_tree (direct tree_doc)) = Inr tree_doc"
    by (simp add: direct_def run_defs)
  have c: "fst (mgr_pbx_product (snd (mgr_pbx_product (direct tree_doc)))) = Inr (JStr ''COMpact 5200'')"
    by (simp add: mgr_pbx_product_def direct_def tree_doc_def run_defs)
  have d: "sent (snd (mgr_pbx_product (snd (mgr_pbx_product (direct tree_doc))))) =
     sent (snd (mgr_pbx_product (direct tree_doc))) @ issued mgr_pbx_product (snd (mgr_pbx_product (direct tree_doc)))"
    using logs_issued(1) [OF logs_mgr_pbx_product] by blast
  have e: "sent (snd (mgr_pbx_product (direct tree_doc))) = sent (direct tree_doc) @ issued mgr_pbx_product (direct tree_doc)"
    using logs_issued(1) [OF logs_mgr_pbx_product] by blast
  from mgr_pbx_product_fetches_again [OF a b] c d e show ?thesis
    by (simp add: base_url_def direct_def)
qed

section \<open>Usage error\<close>

text \<open>
  C5, as the code has it. With the command \<^verbatim>\<open>select\<close> and no number,
  \<^verbatim>\<open>main\<close> ends in \<^verbatim>\<open>parser.error\<close>: exit status 2, the message on standard
  error, and nothing else changed: no request is sent and no tunnel is set up.
\<close>

theorem select_without_number_is_usage_error:
  assumes "command a = Select" and "number a = None"
  shows "main file a s = (Inl (SystemExit 2), s\<lparr>stderr := stderr s @ [select_requires_number]\<rparr>) \<and>
         sent (snd (main file a s)) = sent s \<and> tunnel (snd (main file a s)) = tunnel s"
  using assms by (simp add: main_def parser_error_def)

theorem select_without_number_is_usage_error_witness:
  "fst (main Auer_cfg_switch select_without_number ((tunnelled JNull)\<lparr>tunnel := None\<rparr>)) = Inl (SystemExit 2) \<and>
   sent (snd (main Auer_cfg_switch select_without_number ((tunnelled JNull)\<lparr>tunnel := None\<rparr>))) = [] \<and>
   tunnel (snd (main Auer_cfg_switch select_without_number ((tunnelled JNull)\<lparr>tunnel := None\<rparr>))) = None \<and>
   stderr (snd (main Auer_cfg_switch select_without_number ((tunnelled JNull)\<lparr>tunnel := None\<rparr>)))
     = [select_requires_number]"
  using select_without_number_is_usage_error
    [of select_without_number Auer_cfg_switch "(tunnelled JNull)\<lparr>tunnel := None\<rparr>"]
  by (simp add: select_without_number_def tunnelled_def)

text \<open>The exit status of that run is 2, not 1.\<close>

theorem select_without_number_exit_status_counterexample:
  "fst (main Auer_cfg_mgr select_without_number (direct JNull)) = Inl (SystemExit 2) \<and>
   fst (main Auer_cfg_mgr select_without_number (direct JNull)) \<noteq> Inl (SystemExit 1)"
  by (simp add: main_def parser_error_def select_without_number_def)


section \<open>Selecting a configuration\<close>

lemma switch_config_loop_skip:
  assumes "\<forall>c\<in>set before. skipped cfg_number c"
  shows "switch_config_loop cfg_number (before @ rest) s = switch_config_loop cfg_number rest s"
  using assms
proof (induction before)
  case Nil
  then show ?case by simp
next
  case (Cons c before)
  then obtain v where "ident_number c = Inr v" "v \<noteq> JStr (str cfg_number)"
    by (auto simp: skipped_def split: sum.splits)
  with Cons show ?case
    by (simp add: bind_py_def lift_def)
qed

lemma switch_config_loop_match:
  assumes "matches cfg_number config"
  shows "switch_config_loop cfg_number (config # later) s =
           (case active_flag config of
              Inl e \<Rightarrow> (Inl e, s)
            | Inr active \<Rightarrow>
                if truthy active then (Inr (JBool True), s)
                else (case getitem config ''id'' of
                        Inl e \<Rightarrow> (Inl e, s)
                      | Inr cid \<Rightarrow>
                          (case send ''/configs_set'' (Some [(''configId'', JStr (str cid))]) None s of
                             (Inl e, s') \<Rightarrow> (Inl e, s')
                           | (Inr r, s') \<Rightarrow> (Inr (JBool True), s'))))"
  using assms
  by (simp add: matches_def bind_py_def lift_def return_py_def split: sum.splits prod.splits)

lemma switch_config_loop_no_match:
  assumes "\<forall>c\<in>set rows. skipped cfg_number c"
  shows "switch_config_loop cfg_number rows s =
           (Inl (SystemExit 1), s\<lparr>stdout := stdout s @ [not_found_message cfg_number]\<rparr>)"
  using switch_config_loop_skip [OF assms, of "[]" s]
  by (simp add: bind_py_def print_line_def raise_def)

lemma switch_config_run:
  assumes "fst (fetch_cfg_state s) = Inr doc"
    and "getitem doc ''rows'' = Inr configs"
    and "iterate configs = Inr rows"
  shows "switch_config cfg_number s =
           switch_config_loop cfg_number rows (s\<lparr>sent := sent s @ [GET (base_url s @ ''/configs_state'')]\<rparr>)"
    and "tunnel_ready s"
  using fetch_cfg_state_ok [OF assms(1)] assms(2,3)
  by (simp_all add: switch_config_def bind_py_def lift_def)

lemma find_split:
  assumes "find P xs = Some x"
  shows "\<exists>before later. xs = before @ x # later \<and> P x \<and> (\<forall>y\<in>set before. \<not> P y)"
  using assms
proof (induction xs)
  case Nil
  then show ?case by simp
next
  case (Cons a xs)
  show ?case
  proof (cases "P a")
    case True
    with Cons.prems have "a = x" by simp
    with True have "a # xs = [] @ x # xs \<and> P x \<and> (\<forall>y\<in>set []. \<not> P y)" by simp
    then show ?thesis by blast
  next
    case False
    with Cons obtain before later where "xs = before @ x # later" "P x" "\<forall>y\<in>set before. \<not> P y"
      by auto
    with False have "a # xs = (a # before) @ x # later \<and> P x \<and> (\<forall>y\<in>set (a # before). \<not> P y)"
      by simp
    then show ?thesis by blast
  qed
qed

lemma readable_not_matching:
  assumes "ident_number c = Inr v" and "\<not> matches cfg_number c"
  shows "skipped cfg_number c"
  using assms by (auto simp: matches_def skipped_def)


lemma switch_config_loop_issued:
  assumes "tunnel_ready s" and "matches cfg_number config"
    and "active_flag config = Inr active" and "getitem config ''id'' = Inr cid"
  shows "sent (snd (switch_config_loop cfg_number (config # later) s)) =
           sent s @ (if truthy active then []
                     else [POST (base_url s @ ''/configs_set'') (Some [(''configId'', JStr (str cid))]) None])"
    and "truthy active \<Longrightarrow> switch_config_loop cfg_number (config # later) s = (Inr (JBool True), s)"
  unfolding switch_config_loop_match [OF assms(2)]
  using assms(1,3,4)
  by (auto simp: send_ready session_post_def split: sum.splits)

text \<open>
  C9. Let the fetched list be \<open>before @ config # later\<close>, where the test
  \<^verbatim>\<open>config["data"][1] == str(cfg_number)\<close> is false of every entry of \<open>before\<close>
  and true of \<open>config\<close>, whose active flag and id can be read. Then
  \<^verbatim>\<open>switch_config\<close> sends, after the fetch, one POST with the id of \<open>config\<close>
  when the flag of \<open>config\<close> is not truthy, and nothing when it is; it returns
  \<^verbatim>\<open>True\<close> in the latter case. The entries of \<open>later\<close>, duplicates of the number
  or not, play no part: the loop does the same on \<open>before @ [config]\<close>.
\<close>

theorem switch_config_acts_on_first_match:
  assumes "fst (fetch_cfg_state s) = Inr doc"
    and "getitem doc ''rows'' = Inr configs"
    and "iterate configs = Inr (before @ config # later)"
    and "\<forall>c\<in>set before. skipped cfg_number c"
    and "matches cfg_number config"
    and "active_flag config = Inr active"
    and "getitem config ''id'' = Inr cid"
  shows "issued (switch_config cfg_number) s =
           GET (base_url s @ ''/configs_state'') #
           (if truthy active then []
            else [POST (base_url s @ ''/configs_set'') (Some [(''configId'', JStr (str cid))]) None]) \<and>
         (truthy active \<longrightarrow> fst (switch_config cfg_number s) = Inr (JBool True)) \<and>
         switch_config_loop cfg_number (before @ config # later) =
           switch_config_loop cfg_number (before @ [config])"
proof -
  let ?s1 = "s\<lparr>sent := sent s @ [GET (base_url s @ ''/configs_state'')]\<rparr>"
  note run = switch_config_run [OF assms(1,2,3)]
  have loop: "switch_config cfg_number s = switch_config_loop cfg_number (config # later) ?s1"
    using run(1) switch_config_loop_skip [OF assms(4)] by simp
  have ready: "tunnel_ready ?s1" using run(2) by simp
  note step = switch_config_loop_issued [OF ready assms(5,6,7), where later = later]
  have "sent (snd (switch_config cfg_number s)) =
          sent s @ GET (base_url s @ ''/configs_state'') #
           (if truthy active then []
            else [POST (base_url s @ ''/configs_set'') (Some [(''configId'', JStr (str cid))]) None])"
    using loop step(1) by simp
  then have "issued (switch_config cfg_number) s =
           GET (base_url s @ ''/configs_state'') #
           (if truthy active then []
            else [POST (base_url s @ ''/configs_set'') (Some [(''configId'', JStr (str cid))]) None])"
    by (simp add: issued_def)
  moreover have "truthy active \<longrightarrow> fst (switch_config cfg_number s) = Inr (JBool True)"
    using loop step(2) by simp
  moreover have "switch_config_loop cfg_number (before @ config # later) =
           switch_config_loop cfg_number (before @ [config])"
  proof
    fix t
    show "switch_config_loop cfg_number (before @ config # later) t =
           switch_config_loop cfg_number (before @ [config]) t"
      using switch_config_loop_skip [OF assms(4)] switch_config_loop_match [OF assms(5)]
      by simp
  qed
  ultimately show ?thesis by blast
qed

theorem switch_config_acts_on_first_match_witness:
  "issued (switch_config (JInt 10)) (direct duplicates) = [GET ''https://192.168.0.240/configs_state''] \<and>
   fst (switch_config (JInt 10) (direct duplicates)) = Inr (JBool True) \<and>
   matches (JInt 10) twin_entry \<and> active_flag twin_entry = Inr JNull"
proof -
  have a: "fst (fetch_cfg_state (direct duplicates)) = Inr duplicates"
    by (simp add: direct_def run_defs)
  have b: "getitem duplicates ''rows'' = Inr (JList [day_entry, twin_entry])"
    by (simp add: duplicates_def)
  have c: "iterate (JList [day_entry, twin_entry]) = Inr ([] @ day_entry # [twin_entry])"
    by simp
  have d: "\<forall>c\<in>set []. skipped (JInt 10) c" by simp
  have e: "matches (JInt 10) day_entry"
    by (simp add: matches_def day_entry_def ident_number_def and_then_def str_small)
  have f: "active_flag day_entry = Inr (JBool True)"
    by (simp add: active_flag_def day_entry_def and_then_def)
  have g: "getitem day_entry ''id'' = Inr (JInt 1)" by (simp add: day_entry_def)
  have h: "matches (JInt 10) twin_entry \<and> active_flag twin_entry = Inr JNull"
    by (simp add: matches_def twin_entry_def ident_number_def active_flag_def and_then_def str_small)
  from switch_config_acts_on_first_match [OF a b c d e f g] h show ?thesis
    by (simp add: base_url_def direct_def)
qed


lemma find_unique:
  assumes "length (filter P xs) \<le> 1" and "x \<in> set xs" and "P x"
  shows "find P xs = Some x"
  using assms
proof (induction xs)
  case Nil
  then show ?case by simp
next
  case (Cons a xs)
  show ?case
  proof (cases "P a")
    case True
    with Cons.prems(1) have "filter P xs = []" by simp
    then have "\<forall>y\<in>set xs. \<not> P y" by (simp add: filter_empty_conv)
    with Cons.prems(2,3) have "x = a" by auto
    with True show ?thesis by simp
  next
    case False
    with Cons.prems have "length (filter P xs) \<le> 1" "x \<in> set xs" by auto
    with Cons.IH Cons.prems(3) False show ?thesis by simp
  qed
qed

lemma takeWhile_before_match:
  assumes "P x" and "\<forall>y\<in>set before. \<not> P y"
  shows "takeWhile (\<lambda>c. \<not> P c) (before @ x # later) = before"
  using assms by (simp add: takeWhile_append2)

text \<open>
  What \<^verbatim>\<open>switch_config\<close> writes, whatever the list: the entries before the first
  one that carries the number must let \<^verbatim>\<open>config["data"][1]\<close> be read (else the
  loop raises there); that first one decides.
\<close>

lemma switch_config_first_match_decides:
  assumes "fst (fetch_cfg_state s) = Inr doc"
    and "getitem doc ''rows'' = Inr configs"
    and "iterate configs = Inr rows"
    and "\<forall>c\<in>set (takeWhile (\<lambda>c. \<not> matches cfg_number c) rows). \<exists>v. ident_number c = Inr v"
  shows "writes (issued (switch_config cfg_number) s) =
           (case find (matches cfg_number) rows of
              None \<Rightarrow> []
            | Some c \<Rightarrow>
                (case (active_flag c, getitem c ''id'') of
                   (Inr active, Inr cid) \<Rightarrow>
                     if truthy active then []
                     else [POST (base_url s @ ''/configs_set'') (Some [(''configId'', JStr (str cid))]) None]
                 | _ \<Rightarrow> [])) \<and>
         (\<forall>c active. find (matches cfg_number) rows = Some c \<and> active_flag c = Inr active \<and>
            truthy active \<longrightarrow> fst (switch_config cfg_number s) = Inr (JBool True)) \<and>
         (find (matches cfg_number) rows = None \<longrightarrow>
            switch_config cfg_number s =
              (Inl (SystemExit 1),
               s\<lparr>sent := sent s @ [GET (base_url s @ ''/configs_state'')],
                 stdout := stdout s @ [not_found_message cfg_number]\<rparr>))"
proof -
  let ?s1 = "s\<lparr>sent := sent s @ [GET (base_url s @ ''/configs_state'')]\<rparr>"
  let ?post = "\<lambda>cid. POST (base_url s @ ''/configs_set'') (Some [(''configId'', JStr (str cid))]) None"
  note run = switch_config_run [OF assms(1,2,3)]
  have ready: "tunnel_ready ?s1" using run(2) by simp
  show ?thesis
  proof (cases "find (matches cfg_number) rows")
    case None
    then have none: "\<forall>c\<in>set rows. \<not> matches cfg_number c"
      by (simp add: find_None_iff)
    then have "takeWhile (\<lambda>c. \<not> matches cfg_number c) rows = rows"
      by (simp add: takeWhile_eq_all_conv)
    with assms(4) none have "\<forall>c\<in>set rows. skipped cfg_number c"
      using readable_not_matching by metis
    from switch_config_loop_no_match [OF this, of ?s1] run(1) [of cfg_number]
    have r: "switch_config cfg_number s =
              (Inl (SystemExit 1),
               s\<lparr>sent := sent s @ [GET (base_url s @ ''/configs_state'')],
                 stdout := stdout s @ [not_found_message cfg_number]\<rparr>)"
      by simp
    then have "issued (switch_config cfg_number) s = [GET (base_url s @ ''/configs_state'')]"
      by (simp add: issued_def)
    with None r show ?thesis by simp
  next
    case (Some c)
    from find_split [OF Some] obtain before later where
      split: "rows = before @ c # later" "matches cfg_number c" "\<forall>y\<in>set before. \<not> matches cfg_number y"
      by blast
    then have "takeWhile (\<lambda>c. \<not> matches cfg_number c) rows = before"
      using takeWhile_before_match [of "matches cfg_number" c before later] by simp
    with assms(4) split(3) have skip: "\<forall>y\<in>set before. skipped cfg_number y"
      using readable_not_matching by metis
    have loop: "switch_config cfg_number s = switch_config_loop cfg_number (c # later) ?s1"
      using run(1) [of cfg_number] split(1) switch_config_loop_skip [OF skip] by simp
    note m = switch_config_loop_match [OF split(2), of later ?s1]
    show ?thesis
    proof (cases "active_flag c")
      case (Inl e)
      with loop m have "issued (switch_config cfg_number) s = [GET (base_url s @ ''/configs_state'')]"
        by (simp add: issued_def)
      with Some Inl show ?thesis by simp
    next
      case active: (Inr active)
      show ?thesis
      proof (cases "truthy active")
        case True
        with loop m active have "switch_config cfg_number s = (Inr (JBool True), ?s1)"
          by simp
        then have "issued (switch_config cfg_number) s = [GET (base_url s @ ''/configs_state'')]"
          "fst (switch_config cfg_number s) = Inr (JBool True)"
          by (simp_all add: issued_def)
        with Some active True show ?thesis by (simp split: sum.splits)
      next
        case False
        show ?thesis
        proof (cases "getitem c ''id''")
          case (Inl e)
          with loop m active False
          have "issued (switch_config cfg_number) s = [GET (base_url s @ ''/configs_state'')]"
            by (simp add: issued_def)
          with Some active False Inl show ?thesis by simp
        next
          case cid: (Inr cid)
          from switch_config_loop_issued(1) [OF ready split(2) active cid, of later] loop False
          have "issued (switch_config cfg_number) s = [GET (base_url s @ ''/configs_state''), ?post cid]"
            by (simp add: issued_def)
          with Some active False cid show ?thesis by simp
        qed
      qed
    qed
  qed
qed

lemma find_in_set:
  assumes "find P xs = Some x"
  shows "x \<in> set xs" and "P x"
  using find_split [OF assms] by auto

text \<open>
  C1. Let at most one entry of the fetched list carry the number
  \<^verbatim>\<open>str(cfg_number)\<close> (the specification takes identification numbers to be
  unique within a list), let \<^verbatim>\<open>config["data"][1]\<close> be readable on the entries the
  loop passes before it, and let an entry that carries the number have an id.
  Then \<^verbatim>\<open>switch_config\<close> issues exactly one POST, to \<^verbatim>\<open>/configs_set\<close> with
  \<^verbatim>\<open>configId\<close> the \<^verbatim>\<open>str\<close> of the matching entry's id, if and only if some entry
  carries the number and its active flag is not set; otherwise it writes
  nothing. In particular it writes nothing and returns \<^verbatim>\<open>True\<close> when the
  matching entry is active, and when no entry matches it writes nothing, prints
  \<^verbatim>\<open>Identifikationsnummer <cfg_number> not found\<close> and raises
  \<^verbatim>\<open>SystemExit(1)\<close>.
\<close>

theorem switch_config_writes_iff_match_not_active:
  assumes "fst (fetch_cfg_state s) = Inr doc"
    and "getitem doc ''rows'' = Inr configs"
    and "iterate configs = Inr rows"
    and "length (filter (matches cfg_number) rows) \<le> 1"
    and "\<forall>c\<in>set (takeWhile (\<lambda>c. \<not> matches cfg_number c) rows). \<exists>v. ident_number c = Inr v"
    and "\<forall>c\<in>set rows. matches cfg_number c \<longrightarrow> (\<exists>cid. getitem c ''id'' = Inr cid)"
  shows "((\<exists>c cid. c \<in> set rows \<and> matches cfg_number c \<and> getitem c ''id'' = Inr cid \<and>
            writes (issued (switch_config cfg_number) s) =
              [POST (base_url s @ ''/configs_set'') (Some [(''configId'', JStr (str cid))]) None])
          \<longleftrightarrow>
          (\<exists>c active. c \<in> set rows \<and> matches cfg_number c \<and> active_flag c = Inr active \<and>
             \<not> truthy active)) \<and>
         (\<not> (\<exists>c active. c \<in> set rows \<and> matches cfg_number c \<and> active_flag c = Inr active \<and>
             \<not> truthy active) \<longrightarrow>
            writes (issued (switch_config cfg_number) s) = []) \<and>
         (\<forall>c active. c \<in> set rows \<and> matches cfg_number c \<and> active_flag c = Inr active \<and>
            truthy active \<longrightarrow>
              writes (issued (switch_config cfg_number) s) = [] \<and>
              fst (switch_config cfg_number s) = Inr (JBool True)) \<and>
         ((\<forall>c\<in>set rows. \<not> matches cfg_number c) \<longrightarrow>
            writes (issued (switch_config cfg_number) s) = [] \<and>
            fst (switch_config cfg_number s) = Inl (SystemExit 1) \<and>
            stdout (snd (switch_config cfg_number s)) =
              stdout s @ [''Identifikationsnummer '' @ str cfg_number @ '' not found''])"
proof -
  let ?W = "writes (issued (switch_config cfg_number) s)"
  let ?post = "\<lambda>cid. POST (base_url s @ ''/configs_set'') (Some [(''configId'', JStr (str cid))]) None"
  let ?inactive = "\<exists>c active. c \<in> set rows \<and> matches cfg_number c \<and> active_flag c = Inr active \<and>
             \<not> truthy active"
  note G = switch_config_first_match_decides [OF assms(1,2,3,5)]
  note W = G [THEN conjunct1]
  have the_match: "find (matches cfg_number) rows = Some c" if "c \<in> set rows" "matches cfg_number c" for c
    using find_unique [OF assms(4) that] .
  have posts: "?W = [?post cid]"
    if "c \<in> set rows" "matches cfg_number c" "active_flag c = Inr active" "\<not> truthy active"
      "getitem c ''id'' = Inr cid" for c active cid
    using W the_match [OF that(1,2)] that(3,4,5) by simp
  have quiet: "?W = [] \<and> fst (switch_config cfg_number s) = Inr (JBool True)"
    if "c \<in> set rows" "matches cfg_number c" "active_flag c = Inr active" "truthy active" for c active
  proof -
    have "?W = []"
      using W the_match [OF that(1,2)] that(3,4) by (simp split: sum.splits)
    moreover have "fst (switch_config cfg_number s) = Inr (JBool True)"
      using G the_match [OF that(1,2)] that(3,4) by blast
    ultimately show ?thesis ..
  qed
  have silent: "?W = []" if "\<not> ?inactive"
  proof (cases "find (matches cfg_number) rows")
    case None
    with W show ?thesis by simp
  next
    case (Some c)
    note c = find_in_set [OF Some]
    show ?thesis
    proof (cases "active_flag c")
      case (Inl e)
      with W Some show ?thesis by simp
    next
      case (Inr active)
      with that c have "truthy active" by blast
      with W Some Inr show ?thesis by (simp split: sum.splits)
    qed
  qed
  let ?one = "\<exists>c cid. c \<in> set rows \<and> matches cfg_number c \<and> getitem c ''id'' = Inr cid \<and>
            ?W = [?post cid]"
  have forth: "?one \<longrightarrow> ?inactive"
  proof (rule impI, rule ccontr)
    assume one: "?one" and "\<not> ?inactive"
    then have "?W = []" using silent by blast
    with one show False by auto
  qed
  have backward: "?inactive \<longrightarrow> ?one"
  proof
    assume "?inactive"
    then obtain c active where
      c: "c \<in> set rows" "matches cfg_number c" "active_flag c = Inr active" "\<not> truthy active"
      by blast
    with assms(6) obtain cid where cid: "getitem c ''id'' = Inr cid" by blast
    from posts [OF c cid] c cid show "?one" by blast
  qed
  have none: "?W = [] \<and> fst (switch_config cfg_number s) = Inl (SystemExit 1) \<and>
            stdout (snd (switch_config cfg_number s)) =
              stdout s @ [''Identifikationsnummer '' @ str cfg_number @ '' not found'']"
    if "\<forall>c\<in>set rows. \<not> matches cfg_number c"
  proof -
    from that have f: "find (matches cfg_number) rows = None"
      by (simp add: find_None_iff)
    with G have "switch_config cfg_number s =
              (Inl (SystemExit 1),
               s\<lparr>sent := sent s @ [GET (base_url s @ ''/configs_state'')],
                 stdout := stdout s @ [not_found_message cfg_number]\<rparr>)"
      by blast
    with W f show ?thesis by (simp add: not_found_message_def)
  qed
  from forth backward silent quiet none show ?thesis by blast
qed

theorem switch_config_writes_iff_match_not_active_witness:
  "writes (issued (switch_config (JInt 20)) (direct day_night)) =
     [POST ''https://192.168.0.240/configs_set'' (Some [(''configId'', JStr ''2'')]) None] \<and>
   writes (issued (switch_config (JInt 10)) (direct day_night)) = [] \<and>
   fst (switch_config (JInt 10) (direct day_night)) = Inr (JBool True) \<and>
   writes (issued (switch_config (JInt 99)) (direct day_night)) = [] \<and>
   fst (switch_config (JInt 99) (direct day_night)) = Inl (SystemExit 1) \<and>
   stdout (snd (switch_config (JInt 99) (direct day_night))) = [''Identifikationsnummer 99 not found'']"
proof -
  let ?rows = "[day_entry, night_entry]"
  have a: "fst (fetch_cfg_state (direct day_night)) = Inr day_night"
    by (simp add: direct_def run_defs)
  have b: "getitem day_night ''rows'' = Inr (JList ?rows)"
    by (simp add: day_night_def)
  have c: "iterate (JList ?rows) = Inr ?rows"
    by simp
  have m: "matches (JInt 10) day_entry" "\<not> matches (JInt 10) night_entry"
    "\<not> matches (JInt 20) day_entry" "matches (JInt 20) night_entry"
    "\<not> matches (JInt 99) day_entry" "\<not> matches (JInt 99) night_entry"
    by (simp_all add: matches_def day_entry_def night_entry_def ident_number_def and_then_def str_small)
  have r: "\<exists>v. ident_number day_entry = Inr v" "\<exists>v. ident_number night_entry = Inr v"
    by (simp_all add: day_entry_def night_entry_def ident_number_def and_then_def)
  have e: "active_flag night_entry = Inr JNull" "getitem night_entry ''id'' = Inr (JInt 2)"
    "active_flag day_entry = Inr (JBool True)" "getitem day_entry ''id'' = Inr (JInt 1)"
    by (simp_all add: night_entry_def day_entry_def active_flag_def and_then_def)
  have u: "length (filter (matches n) ?rows) \<le> 1"
    if "n = JInt 10 \<or> n = JInt 20 \<or> n = JInt 99" for n
    using that m by auto
  have d: "\<forall>c\<in>set (takeWhile (\<lambda>c. \<not> matches n c) ?rows). \<exists>v. ident_number c = Inr v" for n
    using r by auto
  have i: "\<forall>c\<in>set ?rows. matches n c \<longrightarrow> (\<exists>cid. getitem c ''id'' = Inr cid)" for n
    using e by simp
  have url: "base_url (direct day_night) = ''https://192.168.0.240''"
    by (simp add: base_url_def direct_def)
  note t20 = switch_config_writes_iff_match_not_active [OF a b c u d i, of "JInt 20"]
  note t10 = switch_config_writes_iff_match_not_active [OF a b c u d i, of "JInt 10"]
  note t99 = switch_config_writes_iff_match_not_active [OF a b c u d i, of "JInt 99"]
  have "\<exists>c active. c \<in> set ?rows \<and> matches (JInt 20) c \<and> active_flag c = Inr active \<and> \<not> truthy active"
    using m e by auto
  with t20 obtain c20 cid where
    c20: "c20 \<in> set ?rows" "matches (JInt 20) c20" "getitem c20 ''id'' = Inr cid"
      "writes (issued (switch_config (JInt 20)) (direct day_night)) =
         [POST (base_url (direct day_night) @ ''/configs_set'') (Some [(''configId'', JStr (str cid))]) None]"
    by auto
  with m have "c20 = night_entry" by auto
  with c20 e have "cid = JInt 2" by simp
  with c20 have w20: "writes (issued (switch_config (JInt 20)) (direct day_night)) =
     [POST ''https://192.168.0.240/configs_set'' (Some [(''configId'', JStr ''2'')]) None]"
    by (simp add: url str_small)
  have w10: "writes (issued (switch_config (JInt 10)) (direct day_night)) = [] \<and>
   fst (switch_config (JInt 10) (direct day_night)) = Inr (JBool True)"
    using t10 m e by auto
  have w99: "writes (issued (switch_config (JInt 99)) (direct day_night)) = [] \<and>
   fst (switch_config (JInt 99) (direct day_night)) = Inl (SystemExit 1) \<and>
   stdout (snd (switch_config (JInt 99) (direct day_night))) = [''Identifikationsnummer 99 not found'']"
    using t99 m by (simp add: str_small direct_def)
  from w20 w10 w99 show ?thesis by blast
qed

section \<open>Enabling twice\<close>

text \<open>
  C2, as the code has it. Let the first call of \<^verbatim>\<open>enable_autoswitch\<close> fetch a state
  whose \<^verbatim>\<open>switchCfgCb\<close> is \<open>cb\<close> and return, and let the second call, made in the
  state the first one leaves, fetch a state whose \<^verbatim>\<open>switchCfgCb\<close> is \<^verbatim>\<open>"1"\<close>. Then
  the two calls together write once when \<open>cb\<close> is not \<^verbatim>\<open>"1"\<close> (the POST to
  \<^verbatim>\<open>/config_autoswitch_save\<close> with the relay name of the first fetch) and not at
  all when it is; every write is the first call's, the second call writes nothing
  and returns \<^verbatim>\<open>True\<close>, and so does the first when \<open>cb\<close> is \<^verbatim>\<open>"1"\<close>.
\<close>

theorem enable_twice_writes_at_most_once:
  assumes "fst (fetch_autoswitch_state s) = Inr current"
    and "getitem current ''switchCfgCb'' = Inr cb"
    and "fst (enable_autoswitch s) = Inr r"
    and "fst (fetch_autoswitch_state (snd (enable_autoswitch s))) = Inr current2"
    and "getitem current2 ''switchCfgCb'' = Inr (JStr ''1'')"
  shows "length (writes (issued enable_twice s)) = (if cb = JStr ''1'' then 0 else 1) \<and>
         writes (issued enable_twice s) = writes (issued enable_autoswitch s) \<and>
         writes (issued enable_autoswitch (snd (enable_autoswitch s))) = [] \<and>
         (cb = JStr ''1'' \<longrightarrow> r = JBool True) \<and>
         (cb \<noteq> JStr ''1'' \<longrightarrow>
            (\<exists>name. getitem current ''switchSysRelaisName'' = Inr name \<and>
               writes (issued enable_twice s) =
                 [POST (base_url s @ ''/config_autoswitch_save'') None
                    (Some [(''switchCfgCb'', JStr ''switchCfgCb''),
                           (''switchSysRelais'', JStr ''switchSysRelais''),
                           (''switchSysRelaisName'', name)])])) \<and>
         fst (enable_twice s) = Inr (JBool True)"
proof -
  let ?s1 = "snd (enable_autoswitch s)"
  let ?g = "\<lambda>t. GET (base_url t @ ''/config_autoswitch_state'')"
  let ?p = "\<lambda>name. POST (base_url s @ ''/config_autoswitch_save'') None
                    (Some [(''switchCfgCb'', JStr ''switchCfgCb''),
                           (''switchSysRelais'', JStr ''switchSysRelais''),
                           (''switchSysRelaisName'', name)])"
  have first_log: "sent ?s1 = sent s @ issued enable_autoswitch s"
    using logs_issued(1) [OF logs_enable_autoswitch] by blast
  have second: "enable_autoswitch ?s1 = (Inr (JBool True), ?s1\<lparr>sent := sent ?s1 @ [?g ?s1]\<rparr>)"
    using enable_autoswitch_run(1) [OF assms(4,5)] by simp
  then have second_issued: "issued enable_autoswitch ?s1 = [?g ?s1]"
    by (simp add: issued_def)
  from assms(3) have twice: "enable_twice s = enable_autoswitch ?s1"
    by (cases "enable_autoswitch s") (simp add: enable_twice_def bind_py_def)
  with second first_log
  have "sent (snd (enable_twice s)) = sent s @ (issued enable_autoswitch s @ [?g ?s1])"
    by simp
  then have "issued enable_twice s = issued enable_autoswitch s @ [?g ?s1]"
    by (rule issued_eq)
  then have same: "writes (issued enable_twice s) = writes (issued enable_autoswitch s)"
    by simp
  have first: "(cb = JStr ''1'' \<and> r = JBool True \<and> writes (issued enable_autoswitch s) = []) \<or>
               (cb \<noteq> JStr ''1'' \<and> (\<exists>name. getitem current ''switchSysRelaisName'' = Inr name \<and>
                  writes (issued enable_autoswitch s) = [?p name]))"
  proof (cases "cb = JStr ''1''")
    case True
    from enable_autoswitch_run(1) [OF assms(1,2) True] assms(3) True show ?thesis
      by (simp add: issued_def)
  next
    case False
    show ?thesis
    proof (cases "getitem current ''switchSysRelaisName''")
      case (Inl e)
      from enable_autoswitch_run(3) [OF assms(1,2) False Inl] assms(3) show ?thesis by simp
    next
      case (Inr name)
      from enable_autoswitch_run(2) [OF assms(1,2) False Inr]
      have "issued enable_autoswitch s = [?g s, ?p name]"
        by (simp add: issued_eq)
      with False Inr show ?thesis by simp
    qed
  qed
  from first show ?thesis
  proof
    assume "cb = JStr ''1'' \<and> r = JBool True \<and> writes (issued enable_autoswitch s) = []"
    with same second_issued twice second show ?thesis by simp
  next
    assume "cb \<noteq> JStr ''1'' \<and> (\<exists>name. getitem current ''switchSysRelaisName'' = Inr name \<and>
                  writes (issued enable_autoswitch s) = [?p name])"
    with same second_issued twice second show ?thesis by auto
  qed
qed

theorem enable_twice_writes_at_most_once_witness:
  "length (writes (issued enable_twice switching)) = 1 \<and>
   writes (issued enable_autoswitch (snd (enable_autoswitch switching))) = [] \<and>
   fst (enable_twice switching) = Inr (JBool True)"
proof -
  have a: "fst (fetch_autoswitch_state switching) = Inr (autoswitch_doc (JStr ''0''))"
    by (simp add: switching_def direct_def run_defs)
  have b: "getitem (autoswitch_doc (JStr ''0'')) ''switchCfgCb'' = Inr (JStr ''0'')"
    by (simp add: autoswitch_doc_def)
  have c: "fst (enable_autoswitch switching) = Inr JNull"
    by (simp add: enable_autoswitch_def switching_def direct_def autoswitch_doc_def run_defs)
  have d: "fst (fetch_autoswitch_state (snd (enable_autoswitch switching))) = Inr (autoswitch_doc (JStr ''1''))"
    by (simp add: enable_autoswitch_def switching_def direct_def autoswitch_doc_def run_defs)
  have e: "getitem (autoswitch_doc (JStr ''1'')) ''switchCfgCb'' = Inr (JStr ''1'')"
    by (simp add: autoswitch_doc_def)
  note t = enable_twice_writes_at_most_once [OF a b c d e]
  from t [THEN conjunct1] have "length (writes (issued enable_twice switching)) = 1"
    by simp
  with t show ?thesis by blast
qed

text \<open>
  When the appliance already reports \<^verbatim>\<open>"1"\<close>, neither call writes: the two calls
  together make no POST, not one.
\<close>

theorem enable_twice_already_enabled_counterexample:
  "fst (enable_autoswitch (direct (autoswitch_doc (JStr ''1'')))) = Inr (JBool True) \<and>
   writes (issued enable_twice (direct (autoswitch_doc (JStr ''1'')))) = [] \<and>
   length (writes (issued enable_twice (direct (autoswitch_doc (JStr ''1''))))) \<noteq> 1"
  by (simp add: enable_twice_def enable_autoswitch_def direct_def autoswitch_doc_def run_defs)

end
